theory Spec2Isabelle
  imports Main "HOL-Library.Char_ord" "HOL-Library.List_Lexorder" "HOL-Library.Multiset"
    "HOL-Library.Sublist"
begin

section \<open>The database lifecycle manager of pkg/database/sqlite.go\<close>

text \<open>
  The package opens a SQLite file through a connection pool, applies a fixed list of
  pragmas, and brings the schema up to date by running the embedded migration scripts,
  each in a transaction of its own. The functions \<open>New\<close>, \<open>Close\<close>, \<open>migrate\<close> and
  \<open>migrateFile\<close> are embedded below, statement by statement. Everything they call
  outside the package (the SQL driver, the embedded file system, the process
  environment, standard output) is made explicit:
  \<^item> every external call appends an \<open>event\<close> to a trace, in program order;
  \<^item> every external call that can fail asks a fault oracle, which sees the whole
    history of calls, so any schedule of failures can be expressed;
  \<^item> the content of the database file is a value of type \<open>database\<close>; a statement
    changes it when it runs outside a transaction, and a transaction changes it when
    it is committed, by \<open>Commit\<close> or by a \<open>COMMIT\<close> statement inside a script body.
\<close>

subsection \<open>Errors\<close>

text \<open>
  \<open>LibError\<close> is an error produced outside the package. \<open>Errorf fmt args err\<close> is the
  value of \<open>fmt.Errorf(fmt, args..., err)\<close>, where the format string ends in the
  wrapping verb and \<open>args\<close> are the string arguments before the wrapped error.
\<close>

datatype error = LibError string | Errorf string "string list" error

subsection \<open>The database file\<close>

text \<open>
  A script body is a sequence of SQL statements. The driver runs them one after the
  other on the connection of the transaction, so a statement of the body that ends
  the transaction does end it. Four kinds of statement matter here: the three that
  control transactions, and every other statement, kept as its text.
\<close>

datatype stmt = Plain string | BeginStmt | CommitStmt | RollbackStmt

text \<open>
  The schema is represented by the history of the ordinary statements run against it,
  in order. The bookkeeping table \<open>migrations\<close> is absent (\<open>None\<close>) or holds a list of
  names. The ordinary statements of script bodies are taken to act on the application
  schema only, not on the bookkeeping table.
\<close>

record database =
  migrations :: "string list option"
  schema :: "string list"

subsection \<open>Pools, contexts, the handle\<close>

text \<open>
  A pool keeps open connections. A pragma is a setting of the one connection that
  runs it: \<open>conns\<close> lists, for every open connection, the pragma statements run on it.
\<close>

record pool =
  closed :: bool
  conns :: "string list list"
  maxOpenConns :: nat
  maxIdleConns :: nat
  connMaxIdleTime :: nat
  connMaxLifetime :: nat

text \<open>
  The struct \<open>Sqlite\<close>: a pointer to the pool, the background context and its cancel
  function. Pools and contexts are named by their index in the world; a pointer or a
  function value of Go may be nil, hence the options. A pointer to a \<open>Sqlite\<close> is a
  \<open>Sqlite option\<close>, \<open>None\<close> being nil.
\<close>

record Sqlite =
  db :: "nat option"
  ctx :: nat
  cancel :: "nat option"

datatype event =
    Connect string string
  | WithCancel
  | DBExec nat string
  | Getenv string
  | Glob string
  | Begin nat
  | QueryRow string "string list"
  | ReadFile string
  | TxExec string "string list"
  | Printf string
  | Commit
  | Rollback
  | Cancel nat
  | DBClose nat

record world =
  disk :: database
  pools :: "pool list"
  contexts :: "bool list"
  trace :: "event list"

text \<open>
  What the package does not decide: which external calls fail (\<open>faults\<close>, given the
  calls made so far and the call being made), the process environment, the embedded
  file system \<open>migrationFS\<close> (the result of globbing a pattern, and the content of each
  file), how the SQL engine splits a script body into statements (\<open>sql_statements\<close>),
  which statement of a body fails (\<open>stmt_faults\<close>, given the calls made before the
  body was sent, the position of the statement and the statement), and which
  connection of the pool runs a statement sent to the pool (\<open>pick_conn\<close>, an index
  into the open connections; an index past the last one stands for a connection
  that the pool opens for the statement).
\<close>

record env =
  faults :: "event list \<Rightarrow> event \<Rightarrow> error option"
  environ :: "string \<Rightarrow> string"
  fs_Glob :: "string \<Rightarrow> error + string list"
  fs_ReadFile :: "string \<Rightarrow> error + string"
  sql_statements :: "string \<Rightarrow> stmt list"
  stmt_faults :: "event list \<Rightarrow> nat \<Rightarrow> stmt \<Rightarrow> error option"
  pick_conn :: "event list \<Rightarrow> nat"

datatype 'a outcome = Returned 'a | Panic

subsection \<open>The external calls\<close>

definition emit :: "event \<Rightarrow> world \<Rightarrow> world" where
  "emit ev w = w\<lparr>trace := trace w @ [ev]\<rparr>"

definition call :: "env \<Rightarrow> event \<Rightarrow> world \<Rightarrow> error option \<times> world" where
  "call e ev w = (faults e (trace w) ev, emit ev w)"

text \<open>
  \<open>sqlx.Connect\<close>: opens a pool and pings it, which opens the pool's first connection;
  on failure there is no pool.
\<close>

definition new_pool :: pool where
  "new_pool = \<lparr>closed = False, conns = [[]], maxOpenConns = 0, maxIdleConns = 2,
     connMaxIdleTime = 0, connMaxLifetime = 0\<rparr>"

definition sqlx_Connect :: "env \<Rightarrow> string \<Rightarrow> string \<Rightarrow> world \<Rightarrow> (error + nat) \<times> world" where
  "sqlx_Connect e driver dsn w =
     (case call e (Connect driver dsn) w of
        (Some err, w') \<Rightarrow> (Inl err, w')
      | (None, w') \<Rightarrow> (Inr (length (pools w')), w'\<lparr>pools := pools w' @ [new_pool]\<rparr>))"

definition context_WithCancel :: "world \<Rightarrow> nat \<times> world" where
  "context_WithCancel w =
     (let w' = emit WithCancel w in (length (contexts w'), w'\<lparr>contexts := contexts w' @ [False]\<rparr>))"

definition update_pool :: "nat \<Rightarrow> (pool \<Rightarrow> pool) \<Rightarrow> world \<Rightarrow> world" where
  "update_pool p f w =
     (if p < length (pools w) then w\<lparr>pools := (pools w)[p := f (pools w ! p)]\<rparr> else w)"

definition SetMaxOpenConns :: "nat \<Rightarrow> nat \<Rightarrow> world \<Rightarrow> world" where
  "SetMaxOpenConns p n = update_pool p (\<lambda>q. q\<lparr>maxOpenConns := n\<rparr>)"

definition SetMaxIdleConns :: "nat \<Rightarrow> nat \<Rightarrow> world \<Rightarrow> world" where
  "SetMaxIdleConns p n = update_pool p (\<lambda>q. q\<lparr>maxIdleConns := n\<rparr>)"

definition SetConnMaxIdleTime :: "nat \<Rightarrow> nat \<Rightarrow> world \<Rightarrow> world" where
  "SetConnMaxIdleTime p d = update_pool p (\<lambda>q. q\<lparr>connMaxIdleTime := d\<rparr>)"

definition SetConnMaxLifetime :: "nat \<Rightarrow> nat \<Rightarrow> world \<Rightarrow> world" where
  "SetConnMaxLifetime p d = update_pool p (\<lambda>q. q\<lparr>connMaxLifetime := d\<rparr>)"

text \<open>Durations are counted in nanoseconds, as \<open>time.Duration\<close> does.\<close>

definition Minute :: nat where
  "Minute = 60 * 1000000000"

definition Hour :: nat where
  "Hour = 60 * Minute"

definition create_migrations :: string where
  "create_migrations = ''CREATE TABLE IF NOT EXISTS migrations (name TEXT PRIMARY KEY);''"

definition select_count :: string where
  "select_count = ''SELECT COUNT(*) FROM migrations WHERE name = ?''"

definition insert_migration :: string where
  "insert_migration = ''INSERT INTO migrations (name) VALUES (?)''"

text \<open>
  A pragma run on connection \<open>i\<close> of the open connections; on a connection opened for
  it when \<open>i\<close> is past the last one. The other connections stay as they are.
\<close>

definition run_pragma :: "nat \<Rightarrow> string \<Rightarrow> string list list \<Rightarrow> string list list" where
  "run_pragma i sql cs = (if i < length cs then cs[i := cs ! i @ [sql]] else cs @ [[sql]])"

text \<open>
  A statement run on the pool, outside any transaction. The package runs two kinds:
  the create-if-absent statement of the bookkeeping table, which creates the empty
  table when there is none and does nothing otherwise, and pragmas, each of which is
  set on the connection that runs it.
\<close>

definition db_Exec :: "env \<Rightarrow> nat \<Rightarrow> string \<Rightarrow> world \<Rightarrow> error option \<times> world" where
  "db_Exec e p sql w =
     (case call e (DBExec p sql) w of
        (Some err, w') \<Rightarrow> (Some err, w')
      | (None, w') \<Rightarrow>
          (if sql = create_migrations then
             (None, (case migrations (disk w') of
                       None \<Rightarrow> w'\<lparr>disk := (disk w')\<lparr>migrations := Some []\<rparr>\<rparr>
                     | Some rows \<Rightarrow> w'))
           else (None, update_pool p
                   (\<lambda>q. q\<lparr>conns := run_pragma (pick_conn e (trace w)) sql (conns q)\<rparr>) w')))"

text \<open>
  The state of the connection that a \<open>Tx\<close> holds: \<open>Some v\<close> while a transaction is open
  on it, \<open>v\<close> being the content the transaction sees and will commit; \<open>None\<close> when no
  transaction is open, so that the connection sees the file and every statement is
  committed as it runs.
\<close>

type_synonym txn = "database option"

definition tx_view :: "txn \<Rightarrow> world \<Rightarrow> database" where
  "tx_view tx w = (case tx of Some v \<Rightarrow> v | None \<Rightarrow> disk w)"

text \<open>\<open>Begin\<close> takes a connection and opens a transaction on it.\<close>

definition db_Begin :: "env \<Rightarrow> nat \<Rightarrow> world \<Rightarrow> (error + txn) \<times> world" where
  "db_Begin e p w =
     (case call e (Begin p) w of
        (Some err, w') \<Rightarrow> (Inl err, w')
      | (None, w') \<Rightarrow> (Inr (Some (disk w')), w'))"

text \<open>The count query of \<open>migrateFile\<close>, scanned into an integer.\<close>

definition tx_QueryRow_Scan ::
  "env \<Rightarrow> string \<Rightarrow> string \<Rightarrow> txn \<Rightarrow> world \<Rightarrow> (error + int) \<times> world" where
  "tx_QueryRow_Scan e sql arg tx w =
     (case call e (QueryRow sql [arg]) w of
        (Some err, w') \<Rightarrow> (Inl err, w')
      | (None, w') \<Rightarrow>
          (case migrations (tx_view tx w') of
             None \<Rightarrow> (Inl (LibError ''no such table: migrations''), w')
           | Some rows \<Rightarrow> (Inr (int (length (filter (\<lambda>r. r = arg) rows))), w')))"

definition fs_ReadFile_call :: "env \<Rightarrow> string \<Rightarrow> world \<Rightarrow> (error + string) \<times> world" where
  "fs_ReadFile_call e name w = (fs_ReadFile e name, emit (ReadFile name) w)"

definition fs_Glob_call :: "env \<Rightarrow> string \<Rightarrow> world \<Rightarrow> (error + string list) \<times> world" where
  "fs_Glob_call e pat w = (fs_Glob e pat, emit (Glob pat) w)"

text \<open>
  One statement on the connection. An ordinary statement changes what the open
  transaction sees, or the file when none is open. \<open>COMMIT\<close> writes what the
  transaction sees to the file and closes it; \<open>ROLLBACK\<close> drops it; \<open>BEGIN\<close> opens one.
  The engine refuses \<open>BEGIN\<close> inside a transaction and \<open>COMMIT\<close> or \<open>ROLLBACK\<close> outside.
\<close>

fun run_stmt :: "stmt \<Rightarrow> txn \<Rightarrow> world \<Rightarrow> error option \<times> txn \<times> world" where
  "run_stmt (Plain s) (Some v) w = (None, Some (v\<lparr>schema := schema v @ [s]\<rparr>), w)"
| "run_stmt (Plain s) None w = (None, None, w\<lparr>disk := (disk w)\<lparr>schema := schema (disk w) @ [s]\<rparr>\<rparr>)"
| "run_stmt BeginStmt (Some v) w =
     (Some (LibError ''cannot start a transaction within a transaction''), Some v, w)"
| "run_stmt BeginStmt None w = (None, Some (disk w), w)"
| "run_stmt CommitStmt (Some v) w = (None, None, w\<lparr>disk := v\<rparr>)"
| "run_stmt CommitStmt None w =
     (Some (LibError ''cannot commit - no transaction is active''), None, w)"
| "run_stmt RollbackStmt (Some v) w = (None, None, w)"
| "run_stmt RollbackStmt None w =
     (Some (LibError ''cannot rollback - no transaction is active''), None, w)"

text \<open>
  The statements of a body, in order, from position \<open>i\<close>: the run stops at the first
  statement that fails, and what the statements before it did stays done.
\<close>

fun run_stmts ::
  "env \<Rightarrow> event list \<Rightarrow> nat \<Rightarrow> stmt list \<Rightarrow> txn \<Rightarrow> world \<Rightarrow> error option \<times> txn \<times> world" where
  "run_stmts e h i [] tx w = (None, tx, w)"
| "run_stmts e h i (s # ss) tx w =
     (case stmt_faults e h i s of
        Some err \<Rightarrow> (Some err, tx, w)
      | None \<Rightarrow>
          (case run_stmt s tx w of
             (Some err, tx', w') \<Rightarrow> (Some err, tx', w')
           | (None, tx', w') \<Rightarrow> run_stmts e h (Suc i) ss tx' w'))"

text \<open>
  \<open>tx.Exec\<close>: a statement sent on the connection of the transaction. Without arguments
  it is a script body, sent as it is: the driver runs its statements one by one.
  With one argument it is the bookkeeping insert, which the primary key refuses for
  a name that is already there; it changes what the open transaction sees, or the
  file when a statement of the body has closed the transaction.
\<close>

definition tx_Exec ::
  "env \<Rightarrow> string \<Rightarrow> string list \<Rightarrow> txn \<Rightarrow> world \<Rightarrow> error option \<times> txn \<times> world" where
  "tx_Exec e sql args tx w =
     (case call e (TxExec sql args) w of
        (Some err, w') \<Rightarrow> (Some err, tx, w')
      | (None, w') \<Rightarrow>
          (case args of
             [] \<Rightarrow> run_stmts e (trace w) 0 (sql_statements e sql) tx w'
           | name # _ \<Rightarrow>
               (case migrations (tx_view tx w') of
                  None \<Rightarrow> (Some (LibError ''no such table: migrations''), tx, w')
                | Some rows \<Rightarrow>
                    (if name \<in> set rows
                     then (Some (LibError ''UNIQUE constraint failed: migrations.name''), tx, w')
                     else
                       (case tx of
                          Some v \<Rightarrow> (None, Some (v\<lparr>migrations := Some (rows @ [name])\<rparr>), w')
                        | None \<Rightarrow>
                            (None, None,
                             w'\<lparr>disk := (disk w')\<lparr>migrations := Some (rows @ [name])\<rparr>\<rparr>))))))"

text \<open>
  \<open>tx.Commit\<close>: the driver sends \<open>COMMIT\<close> on the connection. With a transaction open
  it writes what the transaction sees to the file; when that fails the driver rolls
  the transaction back. With no transaction open (a statement of the body closed
  it) the engine refuses, and the file stays as the statements left it.
\<close>

definition tx_Commit :: "env \<Rightarrow> txn \<Rightarrow> world \<Rightarrow> error option \<times> world" where
  "tx_Commit e tx w =
     (case call e Commit w of
        (Some err, w') \<Rightarrow> (Some err, w')
      | (None, w') \<Rightarrow>
          (case tx of
             Some v \<Rightarrow> (None, w'\<lparr>disk := v\<rparr>)
           | None \<Rightarrow> (Some (LibError ''cannot commit - no transaction is active''), w')))"

text \<open>
  \<open>tx.Rollback\<close> drops what an open transaction holds and changes nothing in the
  file; after \<open>tx.Commit\<close>, or with no transaction open, it does nothing. Its result is
  not looked at by the package.
\<close>

definition tx_Rollback :: "world \<Rightarrow> world" where
  "tx_Rollback w = emit Rollback w"

definition os_Getenv :: "env \<Rightarrow> string \<Rightarrow> world \<Rightarrow> string \<times> world" where
  "os_Getenv e key w = (environ e key, emit (Getenv key) w)"

definition fmt_Printf :: "string \<Rightarrow> world \<Rightarrow> world" where
  "fmt_Printf s w = emit (Printf s) w"

text \<open>\<open>sort.Strings\<close>: ascending in the byte-wise lexicographic order of strings.\<close>

definition sort_Strings :: "string list \<Rightarrow> string list" where
  "sort_Strings names = sort names"

text \<open>Cancelling a context twice is allowed; the second call does nothing.\<close>

definition context_cancel :: "nat \<Rightarrow> world \<Rightarrow> world" where
  "context_cancel c w =
     (let w' = emit (Cancel c) w
      in if c < length (contexts w') then w'\<lparr>contexts := (contexts w')[c := True]\<rparr> else w')"

text \<open>
  Closing a pool marks it closed and reports the first error of closing its
  connections; closing a closed pool reports no error.
\<close>

definition sqlx_Close :: "env \<Rightarrow> nat \<Rightarrow> world \<Rightarrow> error option \<times> world" where
  "sqlx_Close e p w =
     (if p < length (pools w) \<and> closed (pools w ! p) then (None, emit (DBClose p) w)
      else (case call e (DBClose p) w of
              (r, w') \<Rightarrow> (r, update_pool p (\<lambda>q. q\<lparr>closed := True\<rparr>) w')))"

subsection \<open>migrateFile\<close>

definition success_message :: "string \<Rightarrow> string" where
  "success_message name = ''migration success: '' @ name @ [CHR 0x0A]"

text \<open>The body of \<open>migrateFile\<close> after \<open>Begin\<close> has succeeded, up to its return.\<close>

definition migrateFile_tx :: "env \<Rightarrow> string \<Rightarrow> txn \<Rightarrow> world \<Rightarrow> error option \<times> world" where
  "migrateFile_tx e name tx w =
     (case tx_QueryRow_Scan e select_count name tx w of
        (Inl err, w1) \<Rightarrow> (Some err, w1)
      | (Inr n, w1) \<Rightarrow>
          (if n \<noteq> 0 then (None, w1)
           else
             (case fs_ReadFile_call e name w1 of
                (Inl err, w2) \<Rightarrow> (Some err, w2)
              | (Inr buf, w2) \<Rightarrow>
                  (case tx_Exec e buf [] tx w2 of
                     (Some err, tx1, w3) \<Rightarrow> (Some err, w3)
                   | (None, tx1, w3) \<Rightarrow>
                       (case tx_Exec e insert_migration [name] tx1 w3 of
                          (Some err, tx2, w4) \<Rightarrow> (Some err, w4)
                        | (None, tx2, w4) \<Rightarrow>
                            tx_Commit e tx2 (fmt_Printf (success_message name) w4))))))"

text \<open>The deferred \<open>Rollback\<close> runs on every path once \<open>Begin\<close> has succeeded.\<close>

definition migrateFile :: "env \<Rightarrow> nat \<Rightarrow> string \<Rightarrow> world \<Rightarrow> error option \<times> world" where
  "migrateFile e p name w =
     (case db_Begin e p w of
        (Inl err, w1) \<Rightarrow> (Some err, w1)
      | (Inr tx, w1) \<Rightarrow>
          (case migrateFile_tx e name tx w1 of
             (r, w2) \<Rightarrow> (r, tx_Rollback w2)))"

subsection \<open>migrate\<close>

fun migrate_loop :: "env \<Rightarrow> nat \<Rightarrow> string list \<Rightarrow> world \<Rightarrow> error option \<times> world" where
  "migrate_loop e p [] w = (None, w)"
| "migrate_loop e p (name # names) w =
     (case migrateFile e p name w of
        (Some err, w') \<Rightarrow> (Some (Errorf ''migration error: name=%q err=%w'' [name] err), w')
      | (None, w') \<Rightarrow> migrate_loop e p names w')"

definition migrate :: "env \<Rightarrow> nat \<Rightarrow> world \<Rightarrow> error option \<times> world" where
  "migrate e p w =
     (case db_Exec e p create_migrations w of
        (Some err, w1) \<Rightarrow> (Some (Errorf ''cannot create migrations table: %w'' [] err), w1)
      | (None, w1) \<Rightarrow>
          (case fs_Glob_call e ''migration/*.sql'' w1 of
             (Inl err, w2) \<Rightarrow> (Some err, w2)
           | (Inr names, w2) \<Rightarrow> migrate_loop e p (sort_Strings names) w2))"

subsection \<open>New and Close\<close>

text \<open>
  One pragma of \<open>New\<close>: run the statement; on failure return no handle and the error
  wrapped with the given format, otherwise go on.
\<close>

definition pragma_or ::
  "env \<Rightarrow> nat \<Rightarrow> string \<Rightarrow> string \<Rightarrow> world \<Rightarrow> (world \<Rightarrow> (error + Sqlite) \<times> world)
     \<Rightarrow> (error + Sqlite) \<times> world" where
  "pragma_or e p sql fmt w k =
     (case db_Exec e p sql w of
        (Some err, w') \<Rightarrow> (Inl (Errorf fmt [] err), w')
      | (None, w') \<Rightarrow> k w')"

definition New_migrate :: "env \<Rightarrow> nat \<Rightarrow> Sqlite \<Rightarrow> world \<Rightarrow> (error + Sqlite) \<times> world" where
  "New_migrate e p h w =
     (case migrate e p w of
        (Some err, w') \<Rightarrow> (Inl (Errorf ''migrate: %w'' [] err), w')
      | (None, w') \<Rightarrow> (Inr h, w'))"

definition New :: "env \<Rightarrow> string \<Rightarrow> world \<Rightarrow> (error + Sqlite) \<times> world" where
  "New e dsn w =
     (case sqlx_Connect e ''sqlite3'' dsn w of
        (Inl err, w1) \<Rightarrow> (Inl err, w1)
      | (Inr sqlxDB, w1) \<Rightarrow>
          (case context_WithCancel w1 of
             (c, w2) \<Rightarrow>
               (let h = \<lparr>db = Some sqlxDB, ctx = c, cancel = Some c\<rparr>;
                    w3 = SetMaxOpenConns sqlxDB 25 w2;
                    w4 = SetMaxIdleConns sqlxDB 25 w3;
                    w5 = SetConnMaxIdleTime sqlxDB (5 * Minute) w4;
                    w6 = SetConnMaxLifetime sqlxDB (2 * Hour) w5
                in
                  pragma_or e sqlxDB ''PRAGMA journal_mode = wal;'' ''enable wal: %w'' w6 (\<lambda>w7.
                  pragma_or e sqlxDB ''PRAGMA synchronous = NORMAL;'' ''foreign keys pragma: %w'' w7 (\<lambda>w8.
                  pragma_or e sqlxDB ''PRAGMA foreign_keys = ON;'' ''foreign keys pragma: %w'' w8 (\<lambda>w9.
                  pragma_or e sqlxDB ''PRAGMA busy_timeout = 5000;'' ''foreign keys pragma: %w'' w9 (\<lambda>w10.
                  (case os_Getenv e ''LITESTREAM_ACCESS_KEY'' w10 of
                     (v, w11) \<Rightarrow>
                       (if v \<noteq> ''''
                        then pragma_or e sqlxDB ''PRAGMA wal_autocheckpoint = 0;''
                               ''foreign keys pragma: %w'' w11 (New_migrate e sqlxDB h)
                        else New_migrate e sqlxDB h w11)))))))))"

text \<open>
  \<open>Close\<close>: nothing on a nil receiver; otherwise call the cancel function, then close
  the pool and return its result. Calling a nil function value or closing through a
  nil pool pointer panics.
\<close>

definition Close :: "env \<Rightarrow> Sqlite option \<Rightarrow> world \<Rightarrow> error option outcome \<times> world" where
  "Close e h w =
     (case h of
        None \<Rightarrow> (Returned None, w)
      | Some s \<Rightarrow>
          (case cancel s of
             None \<Rightarrow> (Panic, w)
           | Some c \<Rightarrow>
               (let w1 = context_cancel c w
                in (case db s of
                      None \<Rightarrow> (Panic, w1)
                    | Some p \<Rightarrow> (case sqlx_Close e p w1 of (r, w2) \<Rightarrow> (Returned r, w2))))))"

subsection \<open>Observations on states and traces\<close>

text \<open>The names recorded in the bookkeeping table; none when the table is absent.\<close>

definition rows_of :: "database \<Rightarrow> string list" where
  "rows_of d = (case migrations d of None \<Rightarrow> [] | Some rows \<Rightarrow> rows)"

text \<open>The ordinary statements among the statements of a body, in order.\<close>

fun ordinary :: "stmt list \<Rightarrow> string list" where
  "ordinary [] = []"
| "ordinary (Plain s # ss) = s # ordinary ss"
| "ordinary (c # ss) = ordinary ss"

fun is_Plain :: "stmt \<Rightarrow> bool" where
  "is_Plain (Plain s) = True"
| "is_Plain c = False"

text \<open>
  A body is plain when none of its statements controls transactions; a script is
  plain when its file cannot be read (then no body is run) or its body is plain.
\<close>

definition plain_body :: "env \<Rightarrow> string \<Rightarrow> bool" where
  "plain_body e b = list_all is_Plain (sql_statements e b)"

definition plain_script :: "env \<Rightarrow> string \<Rightarrow> bool" where
  "plain_script e n = (case fs_ReadFile e n of Inl err \<Rightarrow> True | Inr b \<Rightarrow> plain_body e b)"

text \<open>The schema changes that running a body to its end makes.\<close>

definition changes_of :: "env \<Rightarrow> string \<Rightarrow> string list" where
  "changes_of e b = ordinary (sql_statements e b)"

text \<open>
  A database agrees with the embedded scripts when every recorded name is the name
  of a script all of whose changes are in the schema, in one piece and in order.
\<close>

definition consistent :: "env \<Rightarrow> database \<Rightarrow> bool" where
  "consistent e d =
     (\<forall>n \<in> set (rows_of d).
        case fs_ReadFile e n of
          Inl err \<Rightarrow> False
        | Inr b \<Rightarrow> sublist (changes_of e b) (schema d))"



text \<open>The calls that release what \<open>New\<close> acquires: cancelling a context, closing a pool.\<close>

fun is_release :: "event \<Rightarrow> bool" where
  "is_release (Cancel c) = True"
| "is_release (DBClose p) = True"
| "is_release ev = False"



text \<open>The calls made between two worlds, the second a later state of the first.\<close>

definition events_since :: "world \<Rightarrow> world \<Rightarrow> event list" where
  "events_since w w' = drop (length (trace w)) (trace w')"

text \<open>The names recorded between two states of the file, in the order of recording.\<close>

definition newly_applied :: "database \<Rightarrow> database \<Rightarrow> string list" where
  "newly_applied d d' = drop (length (rows_of d)) (rows_of d')"

text \<open>The schema changes of running the scripts of the given names, one after the other.\<close>

definition script_changes :: "env \<Rightarrow> string list \<Rightarrow> string list" where
  "script_changes e ns =
     concat (map (\<lambda>n. case fs_ReadFile e n of Inl err \<Rightarrow> [] | Inr b \<Rightarrow> changes_of e b) ns)"

text \<open>
  What is held open: which pools are closed, which contexts are cancelled, and the
  releasing calls made so far.
\<close>

definition held :: "world \<Rightarrow> bool list \<times> bool list \<times> event list" where
  "held w = (map closed (pools w), contexts w, filter is_release (trace w))"

text \<open>
  The world in which \<open>migrate\<close> starts its loop when the create-if-absent statement has
  succeeded: the statement is logged and the bookkeeping table exists, with the rows
  it had.
\<close>

definition bootstrapped :: "nat \<Rightarrow> world \<Rightarrow> world" where
  "bootstrapped p w =
     (emit (DBExec p create_migrations) w)
       \<lparr>disk := (disk w)\<lparr>migrations := Some (rows_of (disk w))\<rparr>\<rparr>"

subsection \<open>Example inputs\<close>

definition fs_example :: "string \<Rightarrow> error + string" where
  "fs_example n =
     (if n = ''migration/0001_init.sql'' then Inr ''CREATE TABLE t(id INTEGER)''
      else if n = ''migration/0002_add_col.sql'' then Inr ''ALTER TABLE t ADD COLUMN v TEXT''
      else if n = ''migration/0010_later.sql'' then Inr ''CREATE INDEX t_v ON t(v)''
      else Inl (LibError ''file does not exist''))"

text \<open>
  Three scripts of one statement each, listed out of order; no call fails; every
  statement sent to the pool runs on its first connection.
\<close>

definition env_example :: env where
  "env_example =
     \<lparr>faults = (\<lambda>h ev. None), environ = (\<lambda>k. []),
      fs_Glob = (\<lambda>pat. Inr [''migration/0010_later.sql'', ''migration/0001_init.sql'',
                           ''migration/0002_add_col.sql'']),
      fs_ReadFile = fs_example,
      sql_statements = (\<lambda>b. [Plain b]),
      stmt_faults = (\<lambda>h i s. None),
      pick_conn = (\<lambda>h. 0)\<rparr>"

text \<open>The same, with the second script's body failing to run.\<close>

definition env_bad_script :: env where
  "env_bad_script =
     env_example\<lparr>faults := (\<lambda>h ev.
        if ev = TxExec ''ALTER TABLE t ADD COLUMN v TEXT'' []
        then Some (LibError ''syntax error'') else None)\<rparr>"

definition world_empty :: world where
  "world_empty =
     \<lparr>disk = \<lparr>migrations = None, schema = []\<rparr>, pools = [], contexts = [], trace = []\<rparr>"

text \<open>The same as \<open>env_example\<close>, with the commit of the second script failing.\<close>

definition env_bad_commit :: env where
  "env_bad_commit =
     env_example\<lparr>faults := (\<lambda>h ev.
        if ev = Commit \<and> ReadFile ''migration/0002_add_col.sql'' \<in> set h
        then Some (LibError ''disk I/O error'') else None)\<rparr>"

text \<open>An empty database in which the bookkeeping table exists.\<close>

definition world_tabled :: world where
  "world_tabled = world_empty\<lparr>disk := \<lparr>migrations = Some [], schema = []\<rparr>\<rparr>"

text \<open>
  Scripts whose bodies control transactions: one ends in \<open>ROLLBACK\<close>, one ends in
  \<open>COMMIT\<close>, and one commits in the middle and then has a statement that fails.
\<close>

definition fs_control :: "string \<Rightarrow> error + string" where
  "fs_control n =
     (if n = ''migration/0003_rollback.sql'' then Inr ''CREATE TABLE u(x); ROLLBACK;''
      else if n = ''migration/0004_commit.sql'' then Inr ''ALTER TABLE t ADD COLUMN w TEXT; COMMIT;''
      else if n = ''migration/0005_partial.sql''
        then Inr ''CREATE TABLE u(x); COMMIT; CREATE TABLE w(x); ALTR''
      else fs_example n)"

definition statements_control :: "string \<Rightarrow> stmt list" where
  "statements_control b =
     (if b = ''CREATE TABLE u(x); ROLLBACK;'' then [Plain ''CREATE TABLE u(x)'', RollbackStmt]
      else if b = ''ALTER TABLE t ADD COLUMN w TEXT; COMMIT;''
        then [Plain ''ALTER TABLE t ADD COLUMN w TEXT'', CommitStmt]
      else if b = ''CREATE TABLE u(x); COMMIT; CREATE TABLE w(x); ALTR''
        then [Plain ''CREATE TABLE u(x)'', CommitStmt, Plain ''CREATE TABLE w(x)'', Plain ''ALTR'']
      else [Plain b])"

definition env_control :: env where
  "env_control =
     env_example\<lparr>fs_Glob := (\<lambda>pat. Inr [''migration/0005_partial.sql'']),
       fs_ReadFile := fs_control, sql_statements := statements_control,
       stmt_faults := (\<lambda>h i s. if s = Plain ''ALTR'' then Some (LibError ''syntax error'') else None)\<rparr>"

text \<open>The same as \<open>env_example\<close>, with one pragma of the first pool failing.\<close>

definition env_pragma_fails :: "string \<Rightarrow> env" where
  "env_pragma_fails sql =
     env_example\<lparr>faults := (\<lambda>h ev.
        if ev = DBExec 0 sql then Some (LibError ''disk I/O error'') else None)\<rparr>"

text \<open>The same as \<open>env_example\<close>, in a process environment with a replication key.\<close>

definition env_litestream :: env where
  "env_litestream =
     env_example\<lparr>environ := (\<lambda>k. if k = ''LITESTREAM_ACCESS_KEY'' then ''AKIA'' else [])\<rparr>"

text \<open>The same as \<open>env_example\<close>, with closing the first pool failing.\<close>

definition env_close_fails :: env where
  "env_close_fails =
     env_example\<lparr>faults := (\<lambda>h ev.
        if ev = DBClose 0 then Some (LibError ''close failed'') else None)\<rparr>"



section \<open>Basic facts about the external calls\<close>

lemma emit_fields [simp]:
  "disk (emit ev w) = disk w" "pools (emit ev w) = pools w"
  "contexts (emit ev w) = contexts w" "trace (emit ev w) = trace w @ [ev]"
  by (simp_all add: emit_def)

lemma run_stmt_frame:
  "run_stmt s tx w = (r, tx', w') \<Longrightarrow>
     pools w' = pools w \<and> contexts w' = contexts w \<and> trace w' = trace w"
  by (cases s; cases tx) auto

lemma run_stmts_frame:
  "run_stmts e h i ss tx w = (r, tx', w') \<Longrightarrow>
     pools w' = pools w \<and> contexts w' = contexts w \<and> trace w' = trace w"
proof (induction ss arbitrary: i tx w)
  case Nil
  then show ?case by simp
next
  case (Cons s ss)
  show ?case
  proof (cases "stmt_faults e h i s")
    case (Some err)
    then show ?thesis using Cons.prems by simp
  next
    case None
    obtain r1 tx1 w1 where s1: "run_stmt s tx w = (r1, tx1, w1)"
      by (cases "run_stmt s tx w")
    note f1 = run_stmt_frame [OF s1]
    show ?thesis
    proof (cases r1)
      case (Some err)
      then show ?thesis using Cons.prems None s1 f1 by simp
    next
      case None': None
      have "run_stmts e h (Suc i) ss tx1 w1 = (r, tx', w')"
        using Cons.prems None s1 None' by simp
      from Cons.IH [OF this] f1 show ?thesis by simp
    qed
  qed
qed

text \<open>
  The statements of a body leave the bookkeeping table as it is, in the file and in
  what the connection sees.
\<close>

lemma run_stmt_migrations:
  "run_stmt s tx w = (r, tx', w') \<Longrightarrow> migrations (tx_view tx w) = migrations (disk w) \<Longrightarrow>
     migrations (disk w') = migrations (disk w) \<and>
     migrations (tx_view tx' w') = migrations (disk w)"
  by (cases s; cases tx) (auto simp: tx_view_def)

lemma run_stmts_migrations:
  "run_stmts e h i ss tx w = (r, tx', w') \<Longrightarrow> migrations (tx_view tx w) = migrations (disk w) \<Longrightarrow>
     migrations (disk w') = migrations (disk w) \<and>
     migrations (tx_view tx' w') = migrations (disk w)"
proof (induction ss arbitrary: i tx w)
  case Nil
  then show ?case by simp
next
  case (Cons s ss)
  show ?case
  proof (cases "stmt_faults e h i s")
    case (Some err)
    then show ?thesis using Cons.prems by simp
  next
    case None
    obtain r1 tx1 w1 where s1: "run_stmt s tx w = (r1, tx1, w1)"
      by (cases "run_stmt s tx w")
    note m1 = run_stmt_migrations [OF s1 Cons.prems(2)]
    show ?thesis
    proof (cases r1)
      case (Some err)
      then show ?thesis using Cons.prems None s1 m1 by simp
    next
      case None': None
      have "run_stmts e h (Suc i) ss tx1 w1 = (r, tx', w')"
        using Cons.prems None s1 None' by simp
      from Cons.IH [OF this] m1 show ?thesis by simp
    qed
  qed
qed

text \<open>
  A plain body inside an open transaction changes only what the transaction sees: it
  adds the statements that ran, all of them when the body ran to its end.
\<close>

lemma run_stmts_plain:
  "list_all is_Plain ss \<Longrightarrow> run_stmts e h i ss (Some v) w = (r, tx', w') \<Longrightarrow>
     w' = w \<and> (\<exists>ran. tx' = Some (v\<lparr>schema := schema v @ ran\<rparr>) \<and>
                 (r = None \<longrightarrow> ran = ordinary ss))"
proof (induction ss arbitrary: i v)
  case Nil
  then show ?case by simp
next
  case (Cons s ss)
  from Cons.prems(1) obtain t where s: "s = Plain t" and rest: "list_all is_Plain ss"
    by (cases s) auto
  show ?case
  proof (cases "stmt_faults e h i s")
    case (Some err)
    have "w' = w" "tx' = Some (v\<lparr>schema := schema v @ []\<rparr>)" "r = Some err"
      using Cons.prems(2) Some by simp_all
    then show ?thesis by blast
  next
    case None
    have "run_stmts e h (Suc i) ss (Some (v\<lparr>schema := schema v @ [t]\<rparr>)) w = (r, tx', w')"
      using Cons.prems(2) None s by simp
    from Cons.IH [OF rest this] obtain ran where
      "w' = w" "tx' = Some (v\<lparr>schema := schema v @ [t] @ ran\<rparr>)" "r = None \<longrightarrow> ran = ordinary ss"
      by auto
    then have "w' = w \<and> tx' = Some (v\<lparr>schema := schema v @ (t # ran)\<rparr>) \<and>
        (r = None \<longrightarrow> t # ran = ordinary (s # ss))"
      using s by simp
    then show ?thesis by blast
  qed
qed

lemma tx_Exec_frame:
  "tx_Exec e sql args tx w = (r, tx', w') \<Longrightarrow>
     pools w' = pools w \<and> contexts w' = contexts w \<and> trace w' = trace w @ [TxExec sql args]"
  by (auto simp: tx_Exec_def call_def dest!: run_stmts_frame
      split: option.splits list.splits if_splits)

lemmas migrateFile_defs =
  migrateFile_def migrateFile_tx_def db_Begin_def tx_QueryRow_Scan_def fs_ReadFile_call_def
  tx_Commit_def tx_Rollback_def fmt_Printf_def call_def emit_def


lemma migrateFile_contexts: "contexts (snd (migrateFile e p n w)) = contexts w"
  by (auto simp add: migrateFile_defs dest!: tx_Exec_frame
      split: sum.splits option.splits list.splits prod.splits)


text \<open>The body of a script, sent in an open transaction that sees the file.\<close>

lemma tx_Exec_body:
  assumes "tx_Exec e sql [] tx w = (r, tx', w')"
    and "migrations (tx_view tx w) = migrations (disk w)"
  shows "migrations (disk w') = migrations (disk w) \<and>
         migrations (tx_view tx' w') = migrations (disk w)"
proof (cases "faults e (trace w) (TxExec sql [])")
  case (Some err)
  then show ?thesis using assms by (auto simp: tx_Exec_def call_def tx_view_def split: option.splits)
next
  case None
  have run: "run_stmts e (trace w) 0 (sql_statements e sql) tx (emit (TxExec sql []) w) = (r, tx', w')"
    using assms(1) None by (simp add: tx_Exec_def call_def)
  have "migrations (tx_view tx (emit (TxExec sql []) w)) = migrations (disk (emit (TxExec sql []) w))"
    using assms(2) by (simp add: tx_view_def split: option.splits)
  from run_stmts_migrations [OF run this] show ?thesis by simp
qed

text \<open>The bookkeeping insert.\<close>

lemma tx_Exec_insert:
  assumes "tx_Exec e sql [n] tx w = (r, tx', w')"
    and "migrations (tx_view tx w) = Some rows" and "migrations (disk w) = Some rows"
  shows "(r \<noteq> None \<longrightarrow> tx' = tx \<and> disk w' = disk w) \<and>
         (r = None \<longrightarrow> n \<notin> set rows \<and> migrations (tx_view tx' w') = Some (rows @ [n]) \<and>
            (case tx of
               Some v \<Rightarrow> disk w' = disk w \<and> tx' = Some (v\<lparr>migrations := Some (rows @ [n])\<rparr>)
             | None \<Rightarrow> tx' = None \<and> disk w' = (disk w)\<lparr>migrations := Some (rows @ [n])\<rparr>))"
proof (cases "faults e (trace w) (TxExec sql [n])")
  case (Some err)
  then have "r = Some err" "tx' = tx" "w' = emit (TxExec sql [n]) w"
    using assms(1) by (simp_all add: tx_Exec_def call_def)
  then show ?thesis by simp
next
  case None
  then show ?thesis
    using assms by (auto simp: tx_Exec_def call_def tx_view_def split: option.splits if_splits)
qed

text \<open>
  What a run of \<open>migrateFile\<close> does to the bookkeeping table: it adds the name, once,
  or nothing; it never removes the table; and when it succeeds the name is recorded.
\<close>

lemma migrateFile_tx_rows:
  assumes run: "migrateFile_tx e n (Some (disk w)) w = (r, w')"
  shows "\<exists>new. rows_of (disk w') = rows_of (disk w) @ new \<and>
           (new = [] \<or> new = [n] \<and> n \<notin> set (rows_of (disk w))) \<and>
           (migrations (disk w) \<noteq> None \<longrightarrow> migrations (disk w') \<noteq> None) \<and>
           (r = None \<longrightarrow> n \<in> set (rows_of (disk w')))"
proof -
  let ?goal = "\<exists>new. rows_of (disk w') = rows_of (disk w) @ new \<and>
           (new = [] \<or> new = [n] \<and> n \<notin> set (rows_of (disk w))) \<and>
           (migrations (disk w) \<noteq> None \<longrightarrow> migrations (disk w') \<noteq> None) \<and>
           (r = None \<longrightarrow> n \<in> set (rows_of (disk w')))"
  have same: "disk w' = disk w \<Longrightarrow> (r = None \<longrightarrow> n \<in> set (rows_of (disk w))) \<Longrightarrow> ?goal"
    by (rule exI [of _ "[]"]) simp
  have added: "\<And>rows. migrations (disk w) = Some rows \<Longrightarrow> n \<notin> set rows \<Longrightarrow>
      migrations (disk w') = Some (rows @ [n]) \<Longrightarrow> ?goal"
    by (rule exI [of _ "[n]"]) (simp add: rows_of_def)
  let ?w1 = "emit (QueryRow select_count [n]) w"
  show ?thesis
  proof (cases "faults e (trace w) (QueryRow select_count [n])")
    case (Some err)
    then show ?thesis
      using run by (intro same) (auto simp: migrateFile_tx_def tx_QueryRow_Scan_def call_def)
  next
    case q: None
    show ?thesis
    proof (cases "migrations (disk w)")
      case None
      then show ?thesis
        using run q
        by (intro same) (auto simp: migrateFile_tx_def tx_QueryRow_Scan_def call_def tx_view_def)
    next
      case (Some rows)
      show ?thesis
      proof (cases "n \<in> set rows")
        case True
        then have "filter (\<lambda>r. r = n) rows \<noteq> []" by (auto simp: filter_empty_conv)
        then show ?thesis
          using run q Some True
          by (intro same)
            (auto simp: migrateFile_tx_def tx_QueryRow_Scan_def call_def tx_view_def rows_of_def)
      next
        case False
        then have cnt: "filter (\<lambda>r. r = n) rows = []" by (auto simp: filter_empty_conv)
        let ?w2 = "emit (ReadFile n) ?w1"
        have step: "migrateFile_tx e n (Some (disk w)) w =
            (case fs_ReadFile e n of
               Inl err \<Rightarrow> (Some err, ?w2)
             | Inr buf \<Rightarrow>
                 (case tx_Exec e buf [] (Some (disk w)) ?w2 of
                    (Some err, tx1, w3) \<Rightarrow> (Some err, w3)
                  | (None, tx1, w3) \<Rightarrow>
                      (case tx_Exec e insert_migration [n] tx1 w3 of
                         (Some err, tx2, w4) \<Rightarrow> (Some err, w4)
                       | (None, tx2, w4) \<Rightarrow>
                           tx_Commit e tx2 (fmt_Printf (success_message n) w4))))"
          using q Some cnt
          by (simp add: migrateFile_tx_def tx_QueryRow_Scan_def call_def tx_view_def
              fs_ReadFile_call_def split: sum.splits)
        show ?thesis
        proof (cases "fs_ReadFile e n")
          case (Inl err)
          then show ?thesis using run step by (intro same) auto
        next
          case (Inr buf)
          obtain rb tx1 w3 where b: "tx_Exec e buf [] (Some (disk w)) ?w2 = (rb, tx1, w3)"
            by (cases "tx_Exec e buf [] (Some (disk w)) ?w2")
          have v: "migrations (tx_view (Some (disk w)) ?w2) = migrations (disk ?w2)"
            by (simp add: tx_view_def)
          from tx_Exec_body [OF b v] Some
          have m3: "migrations (disk w3) = Some rows" and v3: "migrations (tx_view tx1 w3) = Some rows"
            by simp_all
          show ?thesis
          proof (cases rb)
            case (Some err)
            then have "w' = w3" "r = Some err" using run step Inr b by auto
            then show ?thesis using m3 \<open>migrations (disk w) = Some rows\<close>
              by (intro exI [of _ "[]"]) (simp add: rows_of_def)
          next
            case None
            obtain ri tx2 w4 where i: "tx_Exec e insert_migration [n] tx1 w3 = (ri, tx2, w4)"
              by (cases "tx_Exec e insert_migration [n] tx1 w3")
            note ins = tx_Exec_insert [OF i v3 m3]
            show ?thesis
            proof (cases ri)
              case (Some err)
              then have "w' = w4" "r = Some err" using run step Inr b None i by auto
              moreover have "disk w4 = disk w3" using ins Some by simp
              ultimately show ?thesis using m3 \<open>migrations (disk w) = Some rows\<close>
                by (intro exI [of _ "[]"]) (simp add: rows_of_def)
            next
              case ri: None
              have c: "tx_Commit e tx2 (fmt_Printf (success_message n) w4) = (r, w')"
                using run step Inr b None i ri by simp
              have v4: "migrations (tx_view tx2 w4) = Some (rows @ [n])"
                using ins ri by simp
              show ?thesis
              proof (cases tx1)
                case None
                then have d4: "migrations (disk w4) = Some (rows @ [n])" and t2: "tx2 = None"
                  using ins ri m3 by simp_all
                have "migrations (disk w') = Some (rows @ [n])"
                  using c d4 t2
                  by (auto simp: tx_Commit_def call_def fmt_Printf_def split: option.splits)
                then show ?thesis using added \<open>migrations (disk w) = Some rows\<close> False by blast
              next
                case (Some v1)
                then have d4: "disk w4 = disk w3"
                  and t2: "tx2 = Some (v1\<lparr>migrations := Some (rows @ [n])\<rparr>)"
                  using ins ri by simp_all
                show ?thesis
                proof (cases "faults e (trace (fmt_Printf (success_message n) w4)) Commit")
                  case None
                  then have "migrations (disk w') = Some (rows @ [n])"
                    using c t2 by (auto simp: tx_Commit_def call_def)
                  then show ?thesis using added \<open>migrations (disk w) = Some rows\<close> False by blast
                next
                  case (Some err)
                  then have "disk w' = disk w4" "r = Some err"
                    using c by (auto simp: tx_Commit_def call_def fmt_Printf_def)
                  then show ?thesis using d4 m3 \<open>migrations (disk w) = Some rows\<close>
                    by (intro exI [of _ "[]"]) (simp add: rows_of_def)
                qed
              qed
            qed
          qed
        qed
      qed
    qed
  qed
qed

lemma migrateFile_rows:
  "\<exists>new. rows_of (disk (snd (migrateFile e p n w))) = rows_of (disk w) @ new \<and>
         (new = [] \<or> new = [n] \<and> n \<notin> set (rows_of (disk w))) \<and>
         (migrations (disk w) \<noteq> None \<longrightarrow> migrations (disk (snd (migrateFile e p n w))) \<noteq> None) \<and>
         (fst (migrateFile e p n w) = None \<longrightarrow> n \<in> set (rows_of (disk (snd (migrateFile e p n w)))))"
proof (cases "faults e (trace w) (Begin p)")
  case (Some err)
  have "migrateFile e p n w = (Some err, emit (Begin p) w)"
    using Some by (simp add: migrateFile_def db_Begin_def call_def)
  then show ?thesis by (intro exI [of _ "[]"]) simp
next
  case None
  let ?w1 = "emit (Begin p) w"
  obtain r w2 where t: "migrateFile_tx e n (Some (disk ?w1)) ?w1 = (r, w2)"
    by (cases "migrateFile_tx e n (Some (disk ?w1)) ?w1")
  have m: "migrateFile e p n w = (r, tx_Rollback w2)"
    using None t by (simp add: migrateFile_def db_Begin_def call_def)
  from migrateFile_tx_rows [OF t] show ?thesis
    unfolding m by (simp add: tx_Rollback_def)
qed

lemma migrateFile_success_recorded:
  "migrateFile e p n w = (None, w') \<Longrightarrow> n \<in> set (rows_of (disk w'))"
  using migrateFile_rows [of e p n w] by auto

lemma tx_Exec_plain_body:
  assumes "plain_body e sql" and "tx_Exec e sql [] (Some v) w = (r, tx', w')"
  shows "disk w' = disk w \<and>
         (\<exists>ran. tx' = Some (v\<lparr>schema := schema v @ ran\<rparr>) \<and> (r = None \<longrightarrow> ran = changes_of e sql))"
proof (cases "faults e (trace w) (TxExec sql [])")
  case (Some err)
  then have "disk w' = disk w" "tx' = Some (v\<lparr>schema := schema v @ []\<rparr>)" "r = Some err"
    using assms(2) by (auto simp: tx_Exec_def call_def)
  then show ?thesis by blast
next
  case None
  have run: "run_stmts e (trace w) 0 (sql_statements e sql) (Some v) (emit (TxExec sql []) w) = (r, tx', w')"
    using assms(2) None by (simp add: tx_Exec_def call_def)
  from run_stmts_plain [OF _ run] assms(1) show ?thesis
    by (auto simp: plain_body_def changes_of_def)
qed

text \<open>The part of \<open>migrateFile\<close> that is reached when the name is not recorded yet.\<close>

lemma migrateFile_tx_unrecorded:
  assumes "faults e (trace w) (QueryRow select_count [n]) = None"
    and "migrations (disk w) = Some rows" and "n \<notin> set rows"
  shows "migrateFile_tx e n (Some (disk w)) w =
           (case fs_ReadFile e n of
              Inl err \<Rightarrow> (Some err, emit (ReadFile n) (emit (QueryRow select_count [n]) w))
            | Inr buf \<Rightarrow>
                (case tx_Exec e buf [] (Some (disk w))
                        (emit (ReadFile n) (emit (QueryRow select_count [n]) w)) of
                   (Some err, tx1, w3) \<Rightarrow> (Some err, w3)
                 | (None, tx1, w3) \<Rightarrow>
                     (case tx_Exec e insert_migration [n] tx1 w3 of
                        (Some err, tx2, w4) \<Rightarrow> (Some err, w4)
                      | (None, tx2, w4) \<Rightarrow>
                          tx_Commit e tx2 (fmt_Printf (success_message n) w4))))"
proof -
  have "filter (\<lambda>r. r = n) rows = []" using assms(3) by (auto simp: filter_empty_conv)
  then show ?thesis
    using assms(1,2)
    by (simp add: migrateFile_tx_def tx_QueryRow_Scan_def call_def tx_view_def
        fs_ReadFile_call_def split: sum.splits)
qed

text \<open>The part that is reached otherwise: the file stays as it is.\<close>

lemma migrateFile_tx_early:
  assumes "migrateFile_tx e n (Some (disk w)) w = (r, w')"
    and "faults e (trace w) (QueryRow select_count [n]) \<noteq> None \<or> n \<in> set (rows_of (disk w)) \<or>
         migrations (disk w) = None"
  shows "w' = emit (QueryRow select_count [n]) w \<and>
         (r = None \<longrightarrow> n \<in> set (rows_of (disk w)) \<and>
            faults e (trace w) (QueryRow select_count [n]) = None)"
proof (cases "faults e (trace w) (QueryRow select_count [n])")
  case (Some err)
  then show ?thesis
    using assms(1) by (auto simp: migrateFile_tx_def tx_QueryRow_Scan_def call_def)
next
  case q: None
  show ?thesis
  proof (cases "migrations (disk w)")
    case None
    then show ?thesis
      using assms(1) q by (auto simp: migrateFile_tx_def tx_QueryRow_Scan_def call_def tx_view_def)
  next
    case (Some rows)
    then have "n \<in> set rows" using assms(2) q by (simp add: rows_of_def)
    then have "filter (\<lambda>r. r = n) rows \<noteq> []" by (auto simp: filter_empty_conv)
    then show ?thesis
      using assms(1) q Some \<open>n \<in> set rows\<close>
      by (auto simp: migrateFile_tx_def tx_QueryRow_Scan_def call_def tx_view_def rows_of_def)
  qed
qed

text \<open>
  For a plain script, \<open>migrateFile\<close> leaves the file as it was, or succeeds and adds
  the record together with all the changes of the script.
\<close>

lemma migrateFile_tx_plain:
  assumes run: "migrateFile_tx e n (Some (disk w)) w = (r, w')" and plain: "plain_script e n"
  shows "(r \<noteq> None \<longrightarrow> disk w' = disk w) \<and>
         (disk w' = disk w \<or>
          (\<exists>rows b. r = None \<and> migrations (disk w) = Some rows \<and> n \<notin> set rows \<and>
             fs_ReadFile e n = Inr b \<and>
             disk w' = \<lparr>migrations = Some (rows @ [n]),
                        schema = schema (disk w) @ changes_of e b\<rparr>))"
proof (cases "faults e (trace w) (QueryRow select_count [n]) \<noteq> None \<or>
    n \<in> set (rows_of (disk w)) \<or> migrations (disk w) = None")
  case True
  from migrateFile_tx_early [OF run True] show ?thesis by simp
next
  case False
  then obtain rows where q: "faults e (trace w) (QueryRow select_count [n]) = None"
    and rows: "migrations (disk w) = Some rows" and fresh: "n \<notin> set rows"
    by (auto simp: rows_of_def)
  note step = migrateFile_tx_unrecorded [OF q rows fresh]
  let ?w2 = "emit (ReadFile n) (emit (QueryRow select_count [n]) w)"
  show ?thesis
  proof (cases "fs_ReadFile e n")
    case (Inl err)
    then show ?thesis using run step by auto
  next
    case (Inr buf)
    have pb: "plain_body e buf" using plain Inr by (simp add: plain_script_def)
    obtain rb tx1 w3 where b: "tx_Exec e buf [] (Some (disk w)) ?w2 = (rb, tx1, w3)"
      by (cases "tx_Exec e buf [] (Some (disk w)) ?w2")
    from tx_Exec_plain_body [OF pb b] obtain ran where
      d3: "disk w3 = disk w" and t1: "tx1 = Some ((disk w)\<lparr>schema := schema (disk w) @ ran\<rparr>)"
      and ran: "rb = None \<longrightarrow> ran = changes_of e buf"
      by auto
    show ?thesis
    proof (cases rb)
      case (Some err)
      then have "w' = w3" "r = Some err" using run step Inr b by auto
      then show ?thesis using d3 by simp
    next
      case None
      obtain ri tx2 w4 where i: "tx_Exec e insert_migration [n] tx1 w3 = (ri, tx2, w4)"
        by (cases "tx_Exec e insert_migration [n] tx1 w3")
      have v3: "migrations (tx_view tx1 w3) = Some rows" and m3: "migrations (disk w3) = Some rows"
        using t1 d3 rows by (simp_all add: tx_view_def)
      note ins = tx_Exec_insert [OF i v3 m3]
      show ?thesis
      proof (cases ri)
        case (Some err)
        then have "w' = w4" "r = Some err" using run step Inr b None i by auto
        moreover have "disk w4 = disk w3" using ins Some by simp
        ultimately show ?thesis using d3 by simp
      next
        case ri: None
        have c: "tx_Commit e tx2 (fmt_Printf (success_message n) w4) = (r, w')"
          using run step Inr b None i ri by simp
        have d4: "disk w4 = disk w"
          and t2: "tx2 = Some ((disk w)\<lparr>schema := schema (disk w) @ changes_of e buf,
                                       migrations := Some (rows @ [n])\<rparr>)"
          using ins ri t1 d3 ran None by simp_all
        show ?thesis
        proof (cases "faults e (trace (fmt_Printf (success_message n) w4)) Commit")
          case None
          then have "r = None" "disk w' = \<lparr>migrations = Some (rows @ [n]),
              schema = schema (disk w) @ changes_of e buf\<rparr>"
            using c t2 by (auto simp: tx_Commit_def call_def)
          then show ?thesis using rows fresh Inr by blast
        next
          case (Some err)
          then have "disk w' = disk w4" "r = Some err"
            using c by (auto simp: tx_Commit_def call_def fmt_Printf_def)
          then show ?thesis using d4 by simp
        qed
      qed
    qed
  qed
qed

lemma migrateFile_plain:
  assumes "plain_script e n"
  shows "(fst (migrateFile e p n w) \<noteq> None \<longrightarrow> disk (snd (migrateFile e p n w)) = disk w) \<and>
         (disk (snd (migrateFile e p n w)) = disk w \<or>
          (\<exists>rows b. fst (migrateFile e p n w) = None \<and> migrations (disk w) = Some rows \<and>
             n \<notin> set rows \<and> fs_ReadFile e n = Inr b \<and>
             disk (snd (migrateFile e p n w)) =
               \<lparr>migrations = Some (rows @ [n]), schema = schema (disk w) @ changes_of e b\<rparr>))"
proof (cases "faults e (trace w) (Begin p)")
  case (Some err)
  have "migrateFile e p n w = (Some err, emit (Begin p) w)"
    using Some by (simp add: migrateFile_def db_Begin_def call_def)
  then show ?thesis by simp
next
  case None
  let ?w1 = "emit (Begin p) w"
  obtain r w2 where t: "migrateFile_tx e n (Some (disk ?w1)) ?w1 = (r, w2)"
    by (cases "migrateFile_tx e n (Some (disk ?w1)) ?w1")
  have m: "migrateFile e p n w = (r, tx_Rollback w2)"
    using None t by (simp add: migrateFile_def db_Begin_def call_def)
  from migrateFile_tx_plain [OF t assms] show ?thesis
    unfolding m by (simp add: tx_Rollback_def)
qed


lemma tx_Exec_insert_unfold:
  "tx_Exec e sql (name # args) tx w =
     (case faults e (trace w) (TxExec sql (name # args)) of
        Some err \<Rightarrow> (Some err, tx, emit (TxExec sql (name # args)) w)
      | None \<Rightarrow>
          (case migrations (tx_view tx w) of
             None \<Rightarrow> (Some (LibError ''no such table: migrations''), tx,
                        emit (TxExec sql (name # args)) w)
           | Some rows \<Rightarrow>
               (if name \<in> set rows
                then (Some (LibError ''UNIQUE constraint failed: migrations.name''), tx,
                      emit (TxExec sql (name # args)) w)
                else
                  (case tx of
                     Some v \<Rightarrow> (None, Some (v\<lparr>migrations := Some (rows @ [name])\<rparr>),
                                 emit (TxExec sql (name # args)) w)
                   | None \<Rightarrow>
                       (None, None,
                        (emit (TxExec sql (name # args)) w)
                          \<lparr>disk := (disk w)\<lparr>migrations := Some (rows @ [name])\<rparr>\<rparr>)))))"
  by (simp add: tx_Exec_def call_def tx_view_def split: option.splits)

lemma tx_Exec_body_facts:
  "tx_Exec e sql [] (Some v) w = (r, tx', w') \<Longrightarrow>
     pools w' = pools w \<and> contexts w' = contexts w \<and> trace w' = trace w @ [TxExec sql []] \<and>
     (plain_body e sql \<longrightarrow> disk w' = disk w \<and> (\<exists>ran. tx' = Some (v\<lparr>schema := schema v @ ran\<rparr>)))"
  using tx_Exec_frame [of e sql "[]" "Some v" w r tx' w'] tx_Exec_plain_body [of e sql v w r tx' w']
  by auto


lemmas eval_defs =
  migrate_def fs_Glob_call_def sort_Strings_def db_Exec_def migrateFile_defs tx_Exec_def
  tx_view_def env_bad_script_def env_bad_commit_def env_control_def env_example_def
  world_empty_def world_tabled_def create_migrations_def fs_example_def fs_control_def
  statements_control_def select_count_def insert_migration_def




section \<open>Records and committed scripts\<close>






lemma set_sort_Strings: "set (sort_Strings names) = set names"
  by (simp add: sort_Strings_def)



lemma migrate_example_disk:
  "disk (snd (migrate env_example 0 world_empty)) =
     \<lparr>migrations = Some [''migration/0001_init.sql'', ''migration/0002_add_col.sql'',
                         ''migration/0010_later.sql''],
      schema = [''CREATE TABLE t(id INTEGER)'', ''ALTER TABLE t ADD COLUMN v TEXT'',
                ''CREATE INDEX t_v ON t(v)'']\<rparr>"
  by (simp add: eval_defs)

text \<open>
  Claim C1, as stated: for every script, a record for its name implies that its body
  has fully committed. It fails for a body that controls transactions: the body is
  sent as it is, so a body that ends in \<open>ROLLBACK\<close> drops its own changes and closes
  the transaction, and the record is then inserted and committed on its own. The
  file starts without records and ends with the record of the script and without
  the table that the script creates.
\<close>

theorem record_without_effects:
  "consistent env_control (disk world_tabled) \<and>
   disk (snd (migrateFile env_control 0 ''migration/0003_rollback.sql'' world_tabled)) =
     \<lparr>migrations = Some [''migration/0003_rollback.sql''], schema = []\<rparr> \<and>
   changes_of env_control ''CREATE TABLE u(x); ROLLBACK;'' = [''CREATE TABLE u(x)''] \<and>
   \<not> consistent env_control
       (disk (snd (migrateFile env_control 0 ''migration/0003_rollback.sql'' world_tabled)))"
proof -
  have d: "disk (snd (migrateFile env_control 0 ''migration/0003_rollback.sql'' world_tabled)) =
     \<lparr>migrations = Some [''migration/0003_rollback.sql''], schema = []\<rparr>"
    by (simp add: eval_defs)
  have c: "changes_of env_control ''CREATE TABLE u(x); ROLLBACK;'' = [''CREATE TABLE u(x)'']"
    by (simp add: changes_of_def env_control_def statements_control_def)
  have f: "fs_ReadFile env_control ''migration/0003_rollback.sql'' = Inr ''CREATE TABLE u(x); ROLLBACK;''"
    by (simp add: env_control_def fs_control_def)
  have "consistent env_control (disk world_tabled)"
    by (simp add: consistent_def rows_of_def world_tabled_def world_empty_def)
  moreover have "\<not> consistent env_control
       (disk (snd (migrateFile env_control 0 ''migration/0003_rollback.sql'' world_tabled)))"
    unfolding d by (simp add: consistent_def rows_of_def f c)
  ultimately show ?thesis using d c by simp
qed



section \<open>The success message and the commit\<close>

lemma migrateFile_trace_grows:
  "\<exists>evs. trace (snd (migrateFile e p n w)) = trace w @ evs"
  by (auto simp add: migrateFile_defs dest!: tx_Exec_frame
      split: sum.splits option.splits list.splits prod.splits)

text \<open>
  Claim C10, as stated: the message is printed before the commit, so whenever the
  commit fails the message is out, an error is returned and the effects of the
  script are not committed. The last part fails for a body that ends in \<open>COMMIT\<close>:
  the body commits its own change, the record is inserted and committed on its own,
  the message is printed, and \<open>tx.Commit\<close> then fails because no transaction is open,
  with the change and the record in the file.
\<close>

theorem failed_commit_keeps_effects:
  "fst (migrateFile env_control 0 ''migration/0004_commit.sql'' world_tabled) =
     Some (LibError ''cannot commit - no transaction is active'') \<and>
   events_since world_tabled (snd (migrateFile env_control 0 ''migration/0004_commit.sql'' world_tabled)) =
     [Begin 0, QueryRow select_count [''migration/0004_commit.sql''],
      ReadFile ''migration/0004_commit.sql'',
      TxExec ''ALTER TABLE t ADD COLUMN w TEXT; COMMIT;'' [],
      TxExec insert_migration [''migration/0004_commit.sql''],
      Printf (success_message ''migration/0004_commit.sql''), Commit, Rollback] \<and>
   disk (snd (migrateFile env_control 0 ''migration/0004_commit.sql'' world_tabled)) =
     \<lparr>migrations = Some [''migration/0004_commit.sql''],
      schema = [''ALTER TABLE t ADD COLUMN w TEXT'']\<rparr>"
  by (simp add: eval_defs events_since_def)




section \<open>A failing script aborts the run\<close>








text \<open>
  Claim C2, as stated: for every script, when one of its steps fails its transaction
  is rolled back and neither a record nor a partial effect of it remains. It fails
  for a body that controls transactions: the script below creates a table, commits,
  creates another table and then has a statement that fails. The run of \<open>migrate\<close>
  returns the error with the script's name, and both tables stay in the file.
\<close>

theorem failing_script_leaves_partial_effects:
  "fst (migrate env_control 0 world_empty) =
     Some (Errorf ''migration error: name=%q err=%w'' [''migration/0005_partial.sql'']
             (LibError ''syntax error'')) \<and>
   disk (snd (migrate env_control 0 world_empty)) =
     \<lparr>migrations = Some [], schema = [''CREATE TABLE u(x)'', ''CREATE TABLE w(x)'']\<rparr>"
  by (simp add: eval_defs)



section \<open>The order of application\<close>

lemma script_changes_append:
  "script_changes e (xs @ ys) = script_changes e xs @ script_changes e ys"
  by (simp add: script_changes_def)

lemma script_changes_one:
  "fs_ReadFile e n = Inr b \<Longrightarrow> script_changes e [n] = changes_of e b"
  by (simp add: script_changes_def)

lemma migrateFile_step:
  "\<exists>new. rows_of (disk (snd (migrateFile e p n w))) = rows_of (disk w) @ new \<and>
         (new = [] \<or> new = [n] \<and> n \<notin> set (rows_of (disk w))) \<and>
         (plain_script e n \<longrightarrow>
            schema (disk (snd (migrateFile e p n w))) = schema (disk w) @ script_changes e new)"
proof (cases "plain_script e n")
  case False
  then show ?thesis using migrateFile_rows [of e p n w] by auto
next
  case True
  from migrateFile_plain [OF True, of p w]
  have "disk (snd (migrateFile e p n w)) = disk w \<or>
      (\<exists>rows b. migrations (disk w) = Some rows \<and> n \<notin> set rows \<and> fs_ReadFile e n = Inr b \<and>
         disk (snd (migrateFile e p n w)) =
           \<lparr>migrations = Some (rows @ [n]), schema = schema (disk w) @ changes_of e b\<rparr>)"
    by blast
  then show ?thesis
  proof (elim disjE exE conjE)
    assume "disk (snd (migrateFile e p n w)) = disk w"
    then show ?thesis by (intro exI [of _ "[]"]) (simp add: script_changes_def)
  next
    fix rows b
    assume "migrations (disk w) = Some rows" "n \<notin> set rows" "fs_ReadFile e n = Inr b"
      "disk (snd (migrateFile e p n w)) =
           \<lparr>migrations = Some (rows @ [n]), schema = schema (disk w) @ changes_of e b\<rparr>"
    then show ?thesis
      by (intro exI [of _ "[n]"]) (simp add: rows_of_def script_changes_one)
  qed
qed

lemma migrate_loop_rows:
  "sorted ns \<Longrightarrow>
   \<exists>new. rows_of (disk (snd (migrate_loop e p ns w))) = rows_of (disk w) @ new \<and>
         sorted_wrt (<) new \<and> set new \<subseteq> set ns \<and> set new \<inter> set (rows_of (disk w)) = {} \<and>
         ((\<forall>k \<in> set ns. plain_script e k) \<longrightarrow>
            schema (disk (snd (migrate_loop e p ns w))) = schema (disk w) @ script_changes e new)"
proof (induction ns arbitrary: w)
  case Nil
  show ?case by (simp add: script_changes_def)
next
  case (Cons n ns)
  obtain r w1 where m: "migrateFile e p n w = (r, w1)" by (cases "migrateFile e p n w")
  from migrateFile_step [of e p n w] m obtain new1 where
    r1: "rows_of (disk w1) = rows_of (disk w) @ new1"
    and n1: "new1 = [] \<or> new1 = [n] \<and> n \<notin> set (rows_of (disk w))"
    and s1: "plain_script e n \<longrightarrow> schema (disk w1) = schema (disk w) @ script_changes e new1"
    by auto
  show ?case
  proof (cases r)
    case (Some err)
    have "rows_of (disk (snd (migrate_loop e p (n # ns) w))) = rows_of (disk w) @ new1"
      "schema (disk (snd (migrate_loop e p (n # ns) w))) = schema (disk w1)"
      using m Some r1 by simp_all
    moreover have "sorted_wrt (<) new1" "set new1 \<subseteq> set (n # ns)"
      "set new1 \<inter> set (rows_of (disk w)) = {}"
      using n1 by auto
    ultimately show ?thesis using s1 by (intro exI [of _ new1]) simp
  next
    case None
    have srt: "sorted ns" and le: "\<forall>k \<in> set ns. n \<le> k" using Cons.prems by auto
    from Cons.IH [OF srt, of w1] obtain new2 where
      r2: "rows_of (disk (snd (migrate_loop e p ns w1))) = rows_of (disk w1) @ new2"
      and o2: "sorted_wrt (<) new2" and sub2: "set new2 \<subseteq> set ns"
      and dj2: "set new2 \<inter> set (rows_of (disk w1)) = {}"
      and s2: "(\<forall>k \<in> set ns. plain_script e k) \<longrightarrow>
         schema (disk (snd (migrate_loop e p ns w1))) = schema (disk w1) @ script_changes e new2"
      by blast
    have rec: "n \<in> set (rows_of (disk w1))"
      using migrateFile_success_recorded m None by blast
    have lt: "\<forall>k \<in> set new2. n < k"
    proof
      fix k assume k: "k \<in> set new2"
      then have "n \<le> k" using le sub2 by auto
      moreover have "k \<noteq> n" using k dj2 rec by auto
      ultimately show "n < k" by simp
    qed
    have loop: "migrate_loop e p (n # ns) w = migrate_loop e p ns w1"
      using m None by simp
    have A: "rows_of (disk (snd (migrate_loop e p (n # ns) w))) = rows_of (disk w) @ (new1 @ new2)"
      using loop r1 r2 by simp
    have B: "sorted_wrt (<) (new1 @ new2)"
      using n1 o2 lt by auto
    have C: "set (new1 @ new2) \<subseteq> set (n # ns)"
      using n1 sub2 by auto
    have D: "set (new1 @ new2) \<inter> set (rows_of (disk w)) = {}"
      using n1 dj2 r1 by auto
    have E: "(\<forall>k \<in> set (n # ns). plain_script e k) \<longrightarrow>
        schema (disk (snd (migrate_loop e p (n # ns) w))) =
        schema (disk w) @ script_changes e (new1 @ new2)"
      using loop s1 s2 by (simp add: script_changes_append)
    show ?thesis using A B C D E by blast
  qed
qed

text \<open>The order on strings compares bytes, position by position; a proper prefix is smaller.\<close>

lemma string_order_bytewise:
  "''Z.sql'' < ''a.sql'' \<and> ''0002_add_col.sql'' < ''0010_later.sql'' \<and> ''a'' < ''ab'' \<and>
   \<not> ''b'' < ''ab''"
  by simp

lemma sorted_sort_Strings: "sorted (sort_Strings names)"
  by (simp add: sort_Strings_def)

lemma sort_Strings_perm: "mset names' = mset names \<Longrightarrow> sort_Strings names' = sort_Strings names"
  unfolding sort_Strings_def
  by (rule properties_for_sort) simp_all

lemma db_Exec_create_rows:
  "rows_of (disk (snd (db_Exec e p create_migrations w))) = rows_of (disk w) \<and>
   schema (disk (snd (db_Exec e p create_migrations w))) = schema (disk w)"
  by (auto simp: db_Exec_def call_def emit_def rows_of_def split: option.splits)

lemma migrate_rows:
  "\<exists>new. rows_of (disk (snd (migrate e p w))) = rows_of (disk w) @ new \<and>
         sorted_wrt (<) new \<and>
         (\<forall>names. fs_Glob e ''migration/*.sql'' = Inr names \<longrightarrow> set new \<subseteq> set names) \<and>
         ((\<forall>names. fs_Glob e ''migration/*.sql'' = Inr names \<longrightarrow>
             (\<forall>k \<in> set names. plain_script e k)) \<longrightarrow>
            schema (disk (snd (migrate e p w))) = schema (disk w) @ script_changes e new)"
proof -
  obtain r w1 where x: "db_Exec e p create_migrations w = (r, w1)"
    by (cases "db_Exec e p create_migrations w")
  have d1: "rows_of (disk w1) = rows_of (disk w)" "schema (disk w1) = schema (disk w)"
    using db_Exec_create_rows [of e p w] x by simp_all
  let ?w2 = "emit (Glob ''migration/*.sql'') w1"
  have d2: "rows_of (disk ?w2) = rows_of (disk w)" "schema (disk ?w2) = schema (disk w)"
    using d1 by simp_all
  have trivial: "\<exists>new. rows_of (disk w) = rows_of (disk w) @ new \<and> sorted_wrt (<) new \<and>
         (\<forall>names. fs_Glob e ''migration/*.sql'' = Inr names \<longrightarrow> set new \<subseteq> set names) \<and>
         ((\<forall>names. fs_Glob e ''migration/*.sql'' = Inr names \<longrightarrow>
             (\<forall>k \<in> set names. plain_script e k)) \<longrightarrow>
            schema (disk w) = schema (disk w) @ script_changes e new)"
    by (rule exI [of _ "[]"]) (simp add: script_changes_def)
  show ?thesis
  proof (cases r)
    case (Some err)
    then show ?thesis using x d1 trivial by (simp add: migrate_def)
  next
    case None
    show ?thesis
    proof (cases "fs_Glob e ''migration/*.sql''")
      case (Inl err)
      then show ?thesis using x None d2 trivial by (simp add: migrate_def fs_Glob_call_def)
    next
      case (Inr names)
      have run: "migrate e p w = migrate_loop e p (sort_Strings names) ?w2"
        using x None Inr by (simp add: migrate_def fs_Glob_call_def)
      from migrate_loop_rows [OF sorted_sort_Strings, of e p names ?w2]
      show ?thesis
        unfolding run d2 using Inr by (auto simp: set_sort_Strings)
    qed
  qed
qed

lemma run_stmts_glob_irrelevant:
  "run_stmts (e\<lparr>fs_Glob := g\<rparr>) h i ss tx w = run_stmts e h i ss tx w"
  by (induction ss arbitrary: i tx w) (simp_all split: option.splits prod.splits)

lemma tx_Exec_glob_irrelevant:
  "tx_Exec (e\<lparr>fs_Glob := g\<rparr>) sql args tx w = tx_Exec e sql args tx w"
  by (simp add: tx_Exec_def call_def run_stmts_glob_irrelevant
      split: option.splits list.splits)

lemma migrateFile_glob_irrelevant:
  "migrateFile (e\<lparr>fs_Glob := g\<rparr>) p n w = migrateFile e p n w"
  by (auto simp add: migrateFile_defs tx_Exec_glob_irrelevant
      split: sum.splits option.splits list.splits prod.splits)

lemma migrate_loop_glob_irrelevant:
  "migrate_loop (e\<lparr>fs_Glob := g\<rparr>) p ns w = migrate_loop e p ns w"
  by (induction ns arbitrary: w)
    (simp_all add: migrateFile_glob_irrelevant split: prod.splits option.splits)

lemma migrate_perm:
  assumes "fs_Glob e ''migration/*.sql'' = Inr names" and "mset names' = mset names"
  shows "migrate (e\<lparr>fs_Glob := (\<lambda>pat. Inr names')\<rparr>) p w = migrate e p w"
  using assms sort_Strings_perm [OF assms(2)]
  by (simp add: migrate_def fs_Glob_call_def db_Exec_def call_def migrate_loop_glob_irrelevant
      split: option.splits)

text \<open>
  Claim C3. The scripts are applied in strictly ascending byte-wise lexicographic order
  of their names, whatever the order in which the embedded file system lists them:
  the names a run of \<open>migrate\<close> records, in the order of recording, are strictly
  ascending and are names the file system listed, and listing the same names in
  another order gives the same run. When no body of the listed scripts has a
  statement that controls transactions, the schema changes of the run are the
  changes of exactly these scripts in that order.
\<close>

theorem scripts_applied_in_ascending_order:
  "rows_of (disk (snd (migrate e p w))) =
     rows_of (disk w) @ newly_applied (disk w) (disk (snd (migrate e p w))) \<and>
   sorted_wrt (<) (newly_applied (disk w) (disk (snd (migrate e p w)))) \<and>
   ((\<forall>names. fs_Glob e ''migration/*.sql'' = Inr names \<longrightarrow>
       (\<forall>k \<in> set names. plain_script e k)) \<longrightarrow>
    schema (disk (snd (migrate e p w))) =
      schema (disk w) @ script_changes e (newly_applied (disk w) (disk (snd (migrate e p w))))) \<and>
   (\<forall>names names'. fs_Glob e ''migration/*.sql'' = Inr names \<longrightarrow>
      set (newly_applied (disk w) (disk (snd (migrate e p w)))) \<subseteq> set names \<and>
      (mset names' = mset names \<longrightarrow>
         migrate (e\<lparr>fs_Glob := (\<lambda>pat. Inr names')\<rparr>) p w = migrate e p w))"
proof -
  from migrate_rows [of e p w] obtain new where
    r: "rows_of (disk (snd (migrate e p w))) = rows_of (disk w) @ new"
    and o: "sorted_wrt (<) new"
    and sub: "\<forall>names. fs_Glob e ''migration/*.sql'' = Inr names \<longrightarrow> set new \<subseteq> set names"
    and s: "(\<forall>names. fs_Glob e ''migration/*.sql'' = Inr names \<longrightarrow>
             (\<forall>k \<in> set names. plain_script e k)) \<longrightarrow>
          schema (disk (snd (migrate e p w))) = schema (disk w) @ script_changes e new"
    by blast
  have n: "newly_applied (disk w) (disk (snd (migrate e p w))) = new"
    by (simp add: newly_applied_def r)
  show ?thesis
    unfolding n using r o sub s migrate_perm by blast
qed

theorem scripts_applied_in_ascending_order_witness:
  "newly_applied (disk world_empty) (disk (snd (migrate env_example 0 world_empty))) =
     [''migration/0001_init.sql'', ''migration/0002_add_col.sql'', ''migration/0010_later.sql''] \<and>
   sorted_wrt (<) [''migration/0001_init.sql'', ''migration/0002_add_col.sql'',
     ''migration/0010_later.sql''] \<and>
   schema (disk (snd (migrate env_example 0 world_empty))) =
     [''CREATE TABLE t(id INTEGER)'', ''ALTER TABLE t ADD COLUMN v TEXT'',
      ''CREATE INDEX t_v ON t(v)''] \<and>
   migrate (env_example\<lparr>fs_Glob := (\<lambda>pat. Inr [''migration/0002_add_col.sql'',
       ''migration/0010_later.sql'', ''migration/0001_init.sql''])\<rparr>) 0 world_empty =
     migrate env_example 0 world_empty"
proof -
  have g: "fs_Glob env_example ''migration/*.sql'' =
      Inr [''migration/0010_later.sql'', ''migration/0001_init.sql'',
           ''migration/0002_add_col.sql'']"
    by (simp add: env_example_def)
  have m: "mset [''migration/0002_add_col.sql'', ''migration/0010_later.sql'',
       ''migration/0001_init.sql''] =
     mset [''migration/0010_later.sql'', ''migration/0001_init.sql'',
           ''migration/0002_add_col.sql'']"
    by (simp add: add_mset_commute)
  have n: "newly_applied (disk world_empty) (disk (snd (migrate env_example 0 world_empty))) =
     [''migration/0001_init.sql'', ''migration/0002_add_col.sql'', ''migration/0010_later.sql'']"
  proof -
    have r0: "rows_of (disk world_empty) = []"
      by (simp add: rows_of_def world_empty_def)
    show ?thesis
      unfolding newly_applied_def r0 migrate_example_disk by (simp add: rows_of_def)
  qed
  have d: "schema (disk (snd (migrate env_example 0 world_empty))) =
     [''CREATE TABLE t(id INTEGER)'', ''ALTER TABLE t ADD COLUMN v TEXT'',
      ''CREATE INDEX t_v ON t(v)'']"
    unfolding migrate_example_disk by simp
  show ?thesis
    using scripts_applied_in_ascending_order [of env_example 0 world_empty] g m n d
    by (auto simp del: sorted_wrt.simps mset.simps)
qed

section \<open>Running the migrations again\<close>



lemma migrate_loop_table:
  "migrations (disk w) \<noteq> None \<Longrightarrow> migrations (disk (snd (migrate_loop e p ns w))) \<noteq> None"
proof (induction ns arbitrary: w)
  case Nil
  then show ?case by simp
next
  case (Cons n ns)
  obtain r w1 where m: "migrateFile e p n w = (r, w1)" by (cases "migrateFile e p n w")
  have t: "migrations (disk w1) \<noteq> None"
    using migrateFile_rows [of e p n w] m Cons.prems by auto
  show ?case using m Cons.IH [OF t] Cons.prems t by (cases r) auto
qed




section \<open>The bookkeeping table is created first\<close>

lemma migrate_loop_trace_grows:
  "\<exists>evs. trace (snd (migrate_loop e p ns w)) = trace w @ evs"
proof (induction ns arbitrary: w)
  case Nil
  show ?case by simp
next
  case (Cons n ns)
  obtain r w1 where m: "migrateFile e p n w = (r, w1)" by (cases "migrateFile e p n w")
  from migrateFile_trace_grows [of e p n w] m obtain evs1 where
    t1: "trace w1 = trace w @ evs1" by auto
  from Cons.IH [of w1] obtain evs2 where
    t2: "trace (snd (migrate_loop e p ns w1)) = trace w1 @ evs2" by blast
  show ?case using m t1 t2 by (cases r) auto
qed

text \<open>The create-if-absent statement, when the driver reports no failure.\<close>

lemma db_Exec_create:
  assumes "faults e (trace w) (DBExec p create_migrations) = None"
  shows "db_Exec e p create_migrations w = (None, bootstrapped p w)"
proof (cases "migrations (disk w)")
  case None
  then show ?thesis
    using assms by (simp add: db_Exec_def call_def bootstrapped_def rows_of_def)
next
  case (Some rows)
  then have "(disk w)\<lparr>migrations := Some rows\<rparr> = disk w"
    by (cases "disk w") simp
  then show ?thesis
    using assms Some by (simp add: db_Exec_def call_def bootstrapped_def rows_of_def emit_def)
qed

lemma bootstrapped_table: "migrations (disk (bootstrapped p w)) \<noteq> None"
  by (simp add: bootstrapped_def)

lemma bootstrapped_same:
  "migrations (disk w) \<noteq> None \<Longrightarrow> disk (bootstrapped p w) = disk w"
  by (cases "disk w") (auto simp: bootstrapped_def rows_of_def)

lemma migrate_bootstrapped:
  assumes "faults e (trace w) (DBExec p create_migrations) = None"
  shows "migrate e p w =
           (case fs_Glob_call e ''migration/*.sql'' (bootstrapped p w) of
              (Inl err, w2) \<Rightarrow> (Some err, w2)
            | (Inr names, w2) \<Rightarrow> migrate_loop e p (sort_Strings names) w2)"
  by (simp add: migrate_def db_Exec_create [OF assms])

lemma migrate_table:
  assumes "faults e (trace w) (DBExec p create_migrations) = None"
  shows "migrations (disk (snd (migrate e p w))) \<noteq> None"
proof (cases "fs_Glob e ''migration/*.sql''")
  case (Inl err)
  then show ?thesis
    unfolding migrate_bootstrapped [OF assms]
    by (simp add: fs_Glob_call_def bootstrapped_table)
next
  case (Inr names)
  have "migrations (disk (emit (Glob ''migration/*.sql'') (bootstrapped p w))) \<noteq> None"
    by (simp add: bootstrapped_table)
  from migrate_loop_table [OF this, of e p "sort_Strings names"] show ?thesis
    unfolding migrate_bootstrapped [OF assms] using Inr by (simp add: fs_Glob_call_def)
qed

text \<open>
  Claim C8. The bookkeeping table is created by the statement
  \<open>CREATE TABLE IF NOT EXISTS migrations (name TEXT PRIMARY KEY);\<close>, run on the pool and
  not in a transaction, as the first call of \<open>migrate\<close>, hence before the loop begins
  any transaction; when it fails nothing else is called. When the driver reports no
  failure for it, \<open>migrate\<close> goes on (globbing, then the loop) in the world in which
  the table exists with the rows it had, and the table exists when \<open>migrate\<close> returns.
  When the table exists already that world has the file as it was, so the statement
  changes nothing and the table being there is no cause of failure; in particular
  it changes nothing when it is run again after a run of \<open>migrate\<close>.
\<close>

theorem bookkeeping_table_created_first:
  "(\<exists>evs. trace (snd (migrate e p w)) = trace w @ DBExec p create_migrations # evs) \<and>
   (\<forall>err. faults e (trace w) (DBExec p create_migrations) = Some err \<longrightarrow>
      migrate e p w = (Some (Errorf ''cannot create migrations table: %w'' [] err),
                       emit (DBExec p create_migrations) w)) \<and>
   (faults e (trace w) (DBExec p create_migrations) = None \<longrightarrow>
      migrate e p w =
        (case fs_Glob_call e ''migration/*.sql'' (bootstrapped p w) of
           (Inl err, w2) \<Rightarrow> (Some err, w2)
         | (Inr names, w2) \<Rightarrow> migrate_loop e p (sort_Strings names) w2) \<and>
      migrations (disk (snd (migrate e p w))) \<noteq> None \<and>
      disk (bootstrapped p' (snd (migrate e p w))) = disk (snd (migrate e p w))) \<and>
   (migrations (disk w) \<noteq> None \<longrightarrow> disk (bootstrapped p w) = disk w)"
proof -
  have A: "\<exists>evs. trace (snd (migrate e p w)) = trace w @ DBExec p create_migrations # evs"
  proof -
    obtain r w1 where x: "db_Exec e p create_migrations w = (r, w1)"
      by (cases "db_Exec e p create_migrations w")
    have t1: "trace w1 = trace w @ [DBExec p create_migrations]"
      using x by (auto simp: db_Exec_def call_def split: option.splits)
    show ?thesis
    proof (cases r)
      case (Some err)
      then show ?thesis using x t1 by (simp add: migrate_def)
    next
      case None
      show ?thesis
      proof (cases "fs_Glob e ''migration/*.sql''")
        case (Inl err)
        then show ?thesis using x None t1 by (simp add: migrate_def fs_Glob_call_def)
      next
        case (Inr names)
        from migrate_loop_trace_grows [of e p "sort_Strings names" "emit (Glob ''migration/*.sql'') w1"]
        show ?thesis using x None Inr t1 by (auto simp: migrate_def fs_Glob_call_def)
      qed
    qed
  qed
  have B: "\<forall>err. faults e (trace w) (DBExec p create_migrations) = Some err \<longrightarrow>
      migrate e p w = (Some (Errorf ''cannot create migrations table: %w'' [] err),
                       emit (DBExec p create_migrations) w)"
    by (simp add: migrate_def db_Exec_def call_def)
  have C: "faults e (trace w) (DBExec p create_migrations) = None \<longrightarrow>
      migrate e p w =
        (case fs_Glob_call e ''migration/*.sql'' (bootstrapped p w) of
           (Inl err, w2) \<Rightarrow> (Some err, w2)
         | (Inr names, w2) \<Rightarrow> migrate_loop e p (sort_Strings names) w2) \<and>
      migrations (disk (snd (migrate e p w))) \<noteq> None \<and>
      disk (bootstrapped p' (snd (migrate e p w))) = disk (snd (migrate e p w))"
    using migrate_bootstrapped migrate_table bootstrapped_same by blast
  have D: "migrations (disk w) \<noteq> None \<longrightarrow> disk (bootstrapped p w) = disk w"
    using bootstrapped_same by blast
  show ?thesis using A B C D by blast
qed

theorem bookkeeping_table_created_first_witness:
  "migrations (disk world_empty) = None \<and>
   migrations (disk (snd (migrate env_example 0 world_empty))) \<noteq> None \<and>
   hd (trace (snd (migrate env_example 0 world_empty))) = DBExec 0 create_migrations \<and>
   disk (bootstrapped 1 (snd (migrate env_example 0 world_empty))) =
     disk (snd (migrate env_example 0 world_empty)) \<and>
   disk (bootstrapped 0 world_tabled) = disk world_tabled"
proof -
  have f: "faults env_example (trace world_empty) (DBExec 0 create_migrations) = None"
    by (simp add: env_example_def)
  have t: "migrations (disk world_tabled) \<noteq> None"
    by (simp add: world_tabled_def)
  have z: "trace world_empty = []" "migrations (disk world_empty) = None"
    by (simp_all add: world_empty_def)
  from bookkeeping_table_created_first [of env_example 0 world_empty 1] f z
  have a: "migrations (disk (snd (migrate env_example 0 world_empty))) \<noteq> None"
    and b: "hd (trace (snd (migrate env_example 0 world_empty))) = DBExec 0 create_migrations"
    and c: "disk (bootstrapped 1 (snd (migrate env_example 0 world_empty))) =
       disk (snd (migrate env_example 0 world_empty))"
    by auto
  from bookkeeping_table_created_first [of env_example 0 world_tabled 0] t
  have d: "disk (bootstrapped 0 world_tabled) = disk world_tabled"
    by blast
  show ?thesis using a b c d z by simp
qed


section \<open>What New and Close hold and release\<close>

lemma map_update_same:
  "p < length xs \<Longrightarrow> g y = g (xs ! p) \<Longrightarrow> map g (xs[p := y]) = map g xs"
  by (simp add: map_update list_update_same_conv)

lemma held_emit: "\<not> is_release ev \<Longrightarrow> held (emit ev w) = held w"
  by (simp add: held_def)

lemma held_db_Exec: "held (snd (db_Exec e p sql w)) = held w"
  by (auto simp: db_Exec_def call_def held_def update_pool_def map_update_same
      split: option.splits)

lemma held_migrateFile: "held (snd (migrateFile e p n w)) = held w"
  by (auto simp add: migrateFile_defs held_def dest!: tx_Exec_frame
      split: sum.splits option.splits list.splits prod.splits)

lemma held_migrate_loop: "held (snd (migrate_loop e p ns w)) = held w"
proof (induction ns arbitrary: w)
  case Nil
  show ?case by simp
next
  case (Cons n ns)
  obtain r w1 where m: "migrateFile e p n w = (r, w1)" by (cases "migrateFile e p n w")
  have "held w1 = held w" using held_migrateFile [of e p n w] m by simp
  then show ?case using m Cons.IH [of w1] by (cases r) auto
qed

lemma held_migrate: "held (snd (migrate e p w)) = held w"
proof -
  obtain r w1 where x: "db_Exec e p create_migrations w = (r, w1)"
    by (cases "db_Exec e p create_migrations w")
  have h1: "held w1 = held w" using held_db_Exec [of e p create_migrations w] x by simp
  have h2: "held (emit (Glob ''migration/*.sql'') w1) = held w"
    using h1 by (simp add: held_emit)
  show ?thesis
    using x h1 h2 held_migrate_loop [of e p _ "emit (Glob ''migration/*.sql'') w1"]
    by (auto simp: migrate_def fs_Glob_call_def split: option.splits sum.splits)
qed

lemma held_update_pool:
  "(\<And>q. closed (f q) = closed q) \<Longrightarrow> held (update_pool p f w) = held w"
  by (simp add: held_def update_pool_def map_update_same)

lemma held_pragma_or:
  assumes "\<And>w'. held (snd (k w')) = held w'"
  shows "held (snd (pragma_or e p sql fmt w k)) = held w"
proof -
  obtain r w1 where x: "db_Exec e p sql w = (r, w1)" by (cases "db_Exec e p sql w")
  have "held w1 = held w" using held_db_Exec [of e p sql w] x by simp
  then show ?thesis using x assms [of w1] by (cases r) (auto simp: pragma_or_def)
qed

lemma held_New_migrate: "held (snd (New_migrate e p h w)) = held w"
  using held_migrate [of e p w]
  by (auto simp: New_migrate_def split: prod.splits option.splits)

lemma held_New:
  assumes "sqlx_Connect e ''sqlite3'' dsn w = (Inr p, w1)"
  shows "held (snd (New e dsn w)) =
           (map closed (pools w) @ [False], contexts w @ [False], filter is_release (trace w))"
proof -
  have p: "p = length (pools w)" and w1: "w1 = (emit (Connect ''sqlite3'' dsn) w)\<lparr>pools := pools w @ [new_pool]\<rparr>"
    using assms by (auto simp: sqlx_Connect_def call_def split: option.splits)
  obtain c w2 where cw: "context_WithCancel w1 = (c, w2)" by (cases "context_WithCancel w1")
  have h2: "held w2 = (map closed (pools w) @ [False], contexts w @ [False], filter is_release (trace w))"
    using cw w1 by (auto simp: context_WithCancel_def Let_def held_def new_pool_def)
  let ?w6 = "SetConnMaxLifetime p (2 * Hour) (SetConnMaxIdleTime p (5 * Minute)
     (SetMaxIdleConns p 25 (SetMaxOpenConns p 25 w2)))"
  have h6: "held ?w6 = held w2"
    by (simp add: SetConnMaxLifetime_def SetConnMaxIdleTime_def SetMaxIdleConns_def
        SetMaxOpenConns_def held_update_pool)
  have "held (snd (New e dsn w)) = held ?w6"
    using assms cw
    by (simp add: New_def Let_def os_Getenv_def held_pragma_or held_New_migrate held_emit)
  then show ?thesis using h6 h2 by simp
qed

lemma pragma_or_result:
  "fst (pragma_or e p sql fmt w k) = Inr h \<Longrightarrow> \<exists>w'. fst (k w') = Inr h"
  by (auto simp: pragma_or_def split: prod.splits option.splits)

lemma New_migrate_result:
  "fst (New_migrate e p h0 w) = Inr h \<Longrightarrow> h = h0"
  by (auto simp: New_migrate_def split: prod.splits option.splits)

lemma New_handle:
  assumes "New e dsn w = (Inr h, w')"
  shows "h = \<lparr>db = Some (length (pools w)), ctx = length (contexts w),
               cancel = Some (length (contexts w))\<rparr> \<and>
         (\<exists>w1. sqlx_Connect e ''sqlite3'' dsn w = (Inr (length (pools w)), w1))"
proof -
  let ?h0 = "\<lparr>db = Some (length (pools w)), ctx = length (contexts w),
               cancel = Some (length (contexts w))\<rparr>"
  have f: "fst (New e dsn w) = Inr h" using assms by simp
  show ?thesis
  proof (cases "faults e (trace w) (Connect ''sqlite3'' dsn)")
    case (Some err)
    then show ?thesis using f by (simp add: New_def sqlx_Connect_def call_def)
  next
    case None
    have c: "sqlx_Connect e ''sqlite3'' dsn w =
        (Inr (length (pools w)), (emit (Connect ''sqlite3'' dsn) w)\<lparr>pools := pools w @ [new_pool]\<rparr>)"
      using None by (simp add: sqlx_Connect_def call_def)
    have "h = ?h0"
      using f unfolding New_def c
      by (auto simp: context_WithCancel_def Let_def os_Getenv_def
          dest!: pragma_or_result New_migrate_result split: if_splits)
    then show ?thesis using c by simp
  qed
qed

section \<open>Running New step by step\<close>

lemma update_pool_fields [simp]:
  "trace (update_pool p f w) = trace w" "disk (update_pool p f w) = disk w"
  "contexts (update_pool p f w) = contexts w"
  "length (pools (update_pool p f w)) = length (pools w)"
  by (simp_all add: update_pool_def)

lemma update_pool_nth [simp]:
  "p < length (pools w) \<Longrightarrow> pools (update_pool p f w) ! p = f (pools w ! p)"
  by (simp add: update_pool_def)

lemma pragma_or_step:
  "sql \<noteq> create_migrations \<Longrightarrow>
   pragma_or e p sql fmt w k =
     (case faults e (trace w) (DBExec p sql) of
        Some err \<Rightarrow> (Inl (Errorf fmt [] err), emit (DBExec p sql) w)
      | None \<Rightarrow>
          k (update_pool p (\<lambda>q. q\<lparr>conns := run_pragma (pick_conn e (trace w)) sql (conns q)\<rparr>)
               (emit (DBExec p sql) w)))"
  by (simp add: pragma_or_def db_Exec_def call_def split: option.splits)

text \<open>\<open>New\<close> with the connect and the making of the context resolved.\<close>

lemma New_step:
  "New e dsn w =
     (case faults e (trace w) (Connect ''sqlite3'' dsn) of
        Some err \<Rightarrow> (Inl err, emit (Connect ''sqlite3'' dsn) w)
      | None \<Rightarrow>
          (let p = length (pools w); c = length (contexts w);
               h = \<lparr>db = Some p, ctx = c, cancel = Some c\<rparr>;
               w2 = (emit WithCancel ((emit (Connect ''sqlite3'' dsn) w)\<lparr>pools := pools w @ [new_pool]\<rparr>))
                      \<lparr>contexts := contexts w @ [False]\<rparr>;
               w6 = SetConnMaxLifetime p (2 * Hour) (SetConnMaxIdleTime p (5 * Minute)
                      (SetMaxIdleConns p 25 (SetMaxOpenConns p 25 w2)))
           in
             pragma_or e p ''PRAGMA journal_mode = wal;'' ''enable wal: %w'' w6 (\<lambda>w7.
             pragma_or e p ''PRAGMA synchronous = NORMAL;'' ''foreign keys pragma: %w'' w7 (\<lambda>w8.
             pragma_or e p ''PRAGMA foreign_keys = ON;'' ''foreign keys pragma: %w'' w8 (\<lambda>w9.
             pragma_or e p ''PRAGMA busy_timeout = 5000;'' ''foreign keys pragma: %w'' w9 (\<lambda>w10.
               if environ e ''LITESTREAM_ACCESS_KEY'' \<noteq> []
               then pragma_or e p ''PRAGMA wal_autocheckpoint = 0;'' ''foreign keys pragma: %w''
                      (emit (Getenv ''LITESTREAM_ACCESS_KEY'') w10) (New_migrate e p h)
               else New_migrate e p h (emit (Getenv ''LITESTREAM_ACCESS_KEY'') w10)))))))"
  by (simp add: New_def sqlx_Connect_def call_def context_WithCancel_def os_Getenv_def Let_def
      split: option.splits cong: if_cong)

lemma pragmas_not_create:
  "''PRAGMA journal_mode = wal;'' \<noteq> create_migrations"
  "''PRAGMA synchronous = NORMAL;'' \<noteq> create_migrations"
  "''PRAGMA foreign_keys = ON;'' \<noteq> create_migrations"
  "''PRAGMA busy_timeout = 5000;'' \<noteq> create_migrations"
  "''PRAGMA wal_autocheckpoint = 0;'' \<noteq> create_migrations"
  by (simp_all add: create_migrations_def)

lemmas Set_defs =
  SetMaxOpenConns_def SetMaxIdleConns_def SetConnMaxIdleTime_def SetConnMaxLifetime_def


lemma run_stmts_plain_succeeds:
  "list_all is_Plain ss \<Longrightarrow> \<forall>h i s. stmt_faults e h i s = None \<Longrightarrow>
     fst (run_stmts e h i ss (Some v) w) = None"
proof (induction ss arbitrary: i v)
  case Nil
  show ?case by simp
next
  case (Cons s ss)
  from Cons.prems(1) obtain t where s: "s = Plain t" and rest: "list_all is_Plain ss"
    by (cases s) auto
  show ?case
    using Cons.IH [OF rest Cons.prems(2)] Cons.prems(2) s by simp
qed

lemma migrateFile_succeeds:
  assumes nf: "\<forall>h ev. faults e h ev = None" and ns: "\<forall>h i s. stmt_faults e h i s = None"
    and tab: "migrations (disk w) \<noteq> None"
    and rd: "fs_ReadFile e n = Inr b" and plain: "plain_body e b"
  shows "fst (migrateFile e p n w) = None"
proof -
  have body: "fst (tx_Exec e b [] (Some v) v') = None" for v v'
    using nf ns plain run_stmts_plain_succeeds [of "sql_statements e b" e]
    by (simp add: tx_Exec_def call_def plain_body_def)
  have ex: "tx_Exec e b [] (Some v) v' = (r, tx', w') \<Longrightarrow>
      r = None \<and> trace w' = trace v' @ [TxExec b []] \<and> disk w' = disk v' \<and>
      (\<exists>ran. tx' = Some (v\<lparr>schema := schema v @ ran\<rparr>))" for v v' r tx' w'
    using body [of v v'] plain tx_Exec_body_facts [of e b v v' r tx' w'] by simp
  show ?thesis
    using nf tab rd
    by (auto simp add: migrateFile_defs tx_Exec_insert_unfold tx_view_def filter_empty_conv
        dest!: ex
        split: sum.splits option.splits list.splits if_splits prod.splits)
qed

lemma migrate_loop_succeeds:
  assumes "\<forall>h ev. faults e h ev = None" and "\<forall>h i s. stmt_faults e h i s = None"
    and "migrations (disk w) \<noteq> None"
    and "\<forall>n \<in> set ns. \<exists>b. fs_ReadFile e n = Inr b \<and> plain_body e b"
  shows "fst (migrate_loop e p ns w) = None"
  using assms(3,4)
proof (induction ns arbitrary: w)
  case Nil
  show ?case by simp
next
  case (Cons n ns)
  obtain r w1 where m: "migrateFile e p n w = (r, w1)" by (cases "migrateFile e p n w")
  obtain b where b: "fs_ReadFile e n = Inr b" "plain_body e b" using Cons.prems(2) by auto
  have r: "r = None"
    using migrateFile_succeeds [OF assms(1,2) Cons.prems(1) b, of p] m by simp
  have t: "migrations (disk w1) \<noteq> None"
    using migrateFile_rows [of e p n w] m Cons.prems(1) by auto
  have "fst (migrate_loop e p ns w1) = None"
    using Cons.IH [OF t] Cons.prems(2) by simp
  then show ?case using m r by simp
qed

lemma migrate_succeeds:
  assumes "\<forall>h ev. faults e h ev = None" and "\<forall>h i s. stmt_faults e h i s = None"
    and "fs_Glob e ''migration/*.sql'' = Inr names"
    and "\<forall>n \<in> set names. \<exists>b. fs_ReadFile e n = Inr b \<and> plain_body e b"
  shows "fst (migrate e p w) = None"
proof -
  have f: "faults e (trace w) (DBExec p create_migrations) = None"
    using assms(1) by simp
  have t: "migrations (disk (emit (Glob ''migration/*.sql'') (bootstrapped p w))) \<noteq> None"
    by (simp add: bootstrapped_table)
  have "fst (migrate_loop e p (sort_Strings names)
          (emit (Glob ''migration/*.sql'') (bootstrapped p w))) = None"
    using migrate_loop_succeeds [OF assms(1,2) t] assms(4) by (simp add: set_sort_Strings)
  then show ?thesis
    unfolding migrate_bootstrapped [OF f] using assms(3) by (simp add: fs_Glob_call_def)
qed


lemma New_migrate_fst:
  "fst (New_migrate e p h w) =
     (case fst (migrate e p w) of None \<Rightarrow> Inr h | Some err \<Rightarrow> Inl (Errorf ''migrate: %w'' [] err))"
  by (auto simp: New_migrate_def split: prod.splits option.splits)














lemma New_succeeds:
  assumes "\<forall>h ev. faults e h ev = None" and "\<forall>h i s. stmt_faults e h i s = None"
    and "fs_Glob e ''migration/*.sql'' = Inr names"
    and "\<forall>n \<in> set names. \<exists>b. fs_ReadFile e n = Inr b \<and> plain_body e b"
  shows "fst (New e dsn w) =
           Inr \<lparr>db = Some (length (pools w)), ctx = length (contexts w),
                cancel = Some (length (contexts w))\<rparr>"
  using assms(1)
  by (simp add: New_step pragma_or_step pragmas_not_create Let_def New_migrate_fst
      migrate_succeeds [OF assms])

lemma example_readable:
  "\<forall>n \<in> set [''migration/0010_later.sql'', ''migration/0001_init.sql'',
       ''migration/0002_add_col.sql'']. \<exists>b. fs_ReadFile env_example n = Inr b \<and>
         plain_body env_example b"
  by (simp add: fs_example_def env_example_def plain_body_def)

lemma New_example:
  "fst (New env_example ''data/example.db'' world_empty) =
     Inr \<lparr>db = Some 0, ctx = 0, cancel = Some 0\<rparr>"
  using New_succeeds [of env_example _ "''data/example.db''" world_empty] example_readable
  by (simp add: env_example_def world_empty_def)



lemma New_example_fk_fails:
  "fst (New (env_pragma_fails ''PRAGMA foreign_keys = ON;'') ''data/example.db'' world_empty) =
     Inl (Errorf ''foreign keys pragma: %w'' [] (LibError ''disk I/O error''))"
  by (simp add: New_step pragma_or_step pragmas_not_create Let_def env_pragma_fails_def
      env_example_def world_empty_def)

lemma New_example_bad_script:
  "fst (New env_bad_script ''data/example.db'' world_empty) =
     Inl (Errorf ''migrate: %w'' []
       (Errorf ''migration error: name=%q err=%w'' [''migration/0002_add_col.sql'']
         (LibError ''syntax error'')))"
  by (simp add: New_step pragma_or_step pragmas_not_create Let_def New_migrate_fst
      eval_defs Set_defs)

section \<open>A failed New\<close>

text \<open>
  Claim C9. When \<open>New\<close> fails after \<open>sqlx.Connect\<close> has opened the pool (a pragma
  fails, or the migrations fail), it returns the error and no handle, and it has
  neither closed that pool nor called the cancel function of the context it made:
  the pool is the last of the world's pools and is not closed, the pools that were
  there are as closed as before, the new context is not cancelled, and no releasing
  call was made.
\<close>

theorem failed_New_releases_nothing:
  assumes "sqlx_Connect e ''sqlite3'' dsn w = (Inr p, w1)" and "New e dsn w = (Inl err, w')"
  shows "p = length (pools w) \<and> length (pools w') = Suc (length (pools w)) \<and>
         \<not> closed (pools w' ! p) \<and>
         map closed (take p (pools w')) = map closed (pools w) \<and>
         contexts w' = contexts w @ [False] \<and>
         filter is_release (trace w') = filter is_release (trace w)"
proof -
  have p: "p = length (pools w)"
    using assms(1) by (auto simp: sqlx_Connect_def call_def split: option.splits)
  from held_New [OF assms(1)] assms(2)
  have m: "map closed (pools w') = map closed (pools w) @ [False]"
    and c: "contexts w' = contexts w @ [False]"
    and t: "filter is_release (trace w') = filter is_release (trace w)"
    by (simp_all add: held_def)
  have l: "length (pools w') = Suc (length (pools w))"
    using arg_cong [OF m, of length] by simp
  have "map closed (pools w') ! p = False"
    unfolding m p by (simp add: nth_append)
  then have o: "\<not> closed (pools w' ! p)"
    using l p by simp
  have "take p (map closed (pools w')) = map closed (pools w)"
    unfolding m p by simp
  then have k: "map closed (take p (pools w')) = map closed (pools w)"
    by (simp add: take_map)
  show ?thesis using p l o k c t by blast
qed

theorem failed_New_releases_nothing_witness:
  "fst (New (env_pragma_fails ''PRAGMA foreign_keys = ON;'') ''data/example.db'' world_empty) =
     Inl (Errorf ''foreign keys pragma: %w'' [] (LibError ''disk I/O error'')) \<and>
   \<not> closed (pools (snd (New (env_pragma_fails ''PRAGMA foreign_keys = ON;'')
       ''data/example.db'' world_empty)) ! 0) \<and>
   contexts (snd (New (env_pragma_fails ''PRAGMA foreign_keys = ON;'')
       ''data/example.db'' world_empty)) = [False] \<and>
   filter is_release (trace (snd (New (env_pragma_fails ''PRAGMA foreign_keys = ON;'')
       ''data/example.db'' world_empty))) = [] \<and>
   \<not> closed (pools (snd (New env_bad_script ''data/example.db'' world_empty)) ! 0)"
proof -
  let ?e = "env_pragma_fails ''PRAGMA foreign_keys = ON;''"
  let ?w' = "snd (New ?e ''data/example.db'' world_empty)"
  have "fst (sqlx_Connect ?e ''sqlite3'' ''data/example.db'' world_empty) = Inr 0"
    by (simp add: sqlx_Connect_def call_def env_pragma_fails_def env_example_def world_empty_def)
  then have c: "sqlx_Connect ?e ''sqlite3'' ''data/example.db'' world_empty =
      (Inr 0, snd (sqlx_Connect ?e ''sqlite3'' ''data/example.db'' world_empty))"
    by (metis prod.collapse)
  have n: "New ?e ''data/example.db'' world_empty =
      (Inl (Errorf ''foreign keys pragma: %w'' [] (LibError ''disk I/O error'')), ?w')"
    using New_example_fk_fails by (metis prod.collapse)
  have z: "contexts world_empty = []" "trace world_empty = []"
    by (simp_all add: world_empty_def)
  have "fst (sqlx_Connect env_bad_script ''sqlite3'' ''data/example.db'' world_empty) = Inr 0"
    by (simp add: sqlx_Connect_def call_def env_bad_script_def env_example_def world_empty_def)
  then have c2: "sqlx_Connect env_bad_script ''sqlite3'' ''data/example.db'' world_empty =
      (Inr 0, snd (sqlx_Connect env_bad_script ''sqlite3'' ''data/example.db'' world_empty))"
    by (metis prod.collapse)
  have n2: "New env_bad_script ''data/example.db'' world_empty =
      (Inl (Errorf ''migrate: %w'' []
         (Errorf ''migration error: name=%q err=%w'' [''migration/0002_add_col.sql'']
           (LibError ''syntax error''))),
       snd (New env_bad_script ''data/example.db'' world_empty))"
    using New_example_bad_script by (metis prod.collapse)
  show ?thesis
    using failed_New_releases_nothing [OF c n] failed_New_releases_nothing [OF c2 n2]
      New_example_fk_fails z
    by simp
qed

section \<open>Close\<close>

text \<open>
  Claim C7. \<open>Close\<close> on a nil handle returns nil and does nothing. On a handle that
  \<open>New\<close> returned it does not panic: it calls the cancel function, then closes the
  pool, and returns what closing the pool returned; the context is then cancelled and
  the pool closed. A second \<open>Close\<close> on the same handle does not panic either and
  returns nil, leaving pools, contexts and the file as the first call left them.
\<close>

theorem Close_total_idempotent:
  assumes "New e0 dsn w0 = (Inr h, w)"
  shows "Close e None v = (Returned None, v) \<and>
         db h = Some (length (pools w0)) \<and> cancel h = Some (length (contexts w0)) \<and>
         fst (Close e (Some h) w) =
           Returned (faults e (trace w @ [Cancel (length (contexts w0))])
                       (DBClose (length (pools w0)))) \<and>
         trace (snd (Close e (Some h) w)) =
           trace w @ [Cancel (length (contexts w0)), DBClose (length (pools w0))] \<and>
         contexts (snd (Close e (Some h) w)) ! length (contexts w0) \<and>
         closed (pools (snd (Close e (Some h) w)) ! length (pools w0)) \<and>
         fst (Close e' (Some h) (snd (Close e (Some h) w))) = Returned None \<and>
         pools (snd (Close e' (Some h) (snd (Close e (Some h) w)))) =
           pools (snd (Close e (Some h) w)) \<and>
         contexts (snd (Close e' (Some h) (snd (Close e (Some h) w)))) =
           contexts (snd (Close e (Some h) w)) \<and>
         disk (snd (Close e' (Some h) (snd (Close e (Some h) w)))) = disk w"
proof -
  let ?p = "length (pools w0)" and ?c = "length (contexts w0)"
  from New_handle [OF assms] obtain w1 where
    h: "h = \<lparr>db = Some ?p, ctx = ?c, cancel = Some ?c\<rparr>"
    and conn: "sqlx_Connect e0 ''sqlite3'' dsn w0 = (Inr ?p, w1)"
    by blast
  from held_New [OF conn] assms
  have m: "map closed (pools w) = map closed (pools w0) @ [False]"
    and c: "contexts w = contexts w0 @ [False]"
    by (simp_all add: held_def)
  have l: "length (pools w) = Suc ?p"
    using arg_cong [OF m, of length] by simp
  have "map closed (pools w) ! ?p = False"
    unfolding m by (simp add: nth_append)
  then have o: "\<not> closed (pools w ! ?p)"
    using l by simp
  have lc: "length (contexts w) = Suc ?c"
    using c by simp
  show ?thesis
    using l o lc
    by (simp add: h Close_def context_cancel_def sqlx_Close_def call_def update_pool_def Let_def)
qed

theorem Close_total_idempotent_witness:
  "Close env_close_fails None world_empty = (Returned None, world_empty) \<and>
   fst (Close env_close_fails (Some \<lparr>db = Some 0, ctx = 0, cancel = Some 0\<rparr>)
          (snd (New env_example ''data/example.db'' world_empty))) =
     Returned (Some (LibError ''close failed'')) \<and>
   fst (Close env_close_fails (Some \<lparr>db = Some 0, ctx = 0, cancel = Some 0\<rparr>)
          (snd (Close env_close_fails (Some \<lparr>db = Some 0, ctx = 0, cancel = Some 0\<rparr>)
             (snd (New env_example ''data/example.db'' world_empty))))) =
     Returned None"
proof -
  let ?h = "\<lparr>db = Some 0, ctx = 0, cancel = Some 0\<rparr>"
  let ?w = "snd (New env_example ''data/example.db'' world_empty)"
  have n: "New env_example ''data/example.db'' world_empty = (Inr ?h, ?w)"
    using New_example by (metis prod.collapse)
  have f: "faults env_close_fails (trace ?w @ [Cancel 0]) (DBClose 0) =
      Some (LibError ''close failed'')"
    by (simp add: env_close_fails_def)
  have z: "length (pools world_empty) = 0" "length (contexts world_empty) = 0"
    by (simp_all add: world_empty_def)
  show ?thesis
    using Close_total_idempotent [OF n, of env_close_fails world_empty env_close_fails] f z
    by simp
qed

section \<open>The error messages of the pragmas\<close>

text \<open>
  Claim C5. When a pragma of \<open>New\<close> fails, \<open>New\<close> returns no handle and an error
  whose text names the setting. The code does the first and not the second: the
  failures of \<open>synchronous\<close>, \<open>busy_timeout\<close> and \<open>wal_autocheckpoint\<close> carry the
  text of the \<open>foreign_keys\<close> pragma, so the four cannot be told apart.
\<close>

theorem pragma_failures_share_one_message:
  "fst (New (env_pragma_fails ''PRAGMA synchronous = NORMAL;'') ''data/example.db'' world_empty) =
     Inl (Errorf ''foreign keys pragma: %w'' [] (LibError ''disk I/O error'')) \<and>
   fst (New (env_pragma_fails ''PRAGMA foreign_keys = ON;'') ''data/example.db'' world_empty) =
     Inl (Errorf ''foreign keys pragma: %w'' [] (LibError ''disk I/O error'')) \<and>
   fst (New (env_pragma_fails ''PRAGMA busy_timeout = 5000;'') ''data/example.db'' world_empty) =
     Inl (Errorf ''foreign keys pragma: %w'' [] (LibError ''disk I/O error'')) \<and>
   fst (New ((env_pragma_fails ''PRAGMA wal_autocheckpoint = 0;'')\<lparr>environ := environ env_litestream\<rparr>)
          ''data/example.db'' world_empty) =
     Inl (Errorf ''foreign keys pragma: %w'' [] (LibError ''disk I/O error''))"
  by (simp add: New_step pragma_or_step pragmas_not_create Let_def env_pragma_fails_def
      env_example_def env_litestream_def world_empty_def)

section \<open>The process environment\<close>













end
